theory Spec2Isabelle
  imports Complex_Main "HOL-Library.Log_Nat"
begin

section \<open>Algorithm kernels\<close>

text \<open>
  The three kernels of \<^verbatim>\<open>src/algorithms/*/generated\<close> compute on C++ \<^verbatim>\<open>double\<close>
  values with the operators \<^verbatim>\<open>+ - * /\<close>, unary minus and the literal \<^verbatim>\<open>1.0\<close>.  They are
  embedded once, over an arbitrary scalar type \<open>'a\<close> that only has to provide these
  operations (the syntactic classes \<open>plus\<close>, \<open>minus\<close>, \<open>times\<close>, \<open>inverse\<close>, \<open>uminus\<close>,
  \<open>one\<close>): no algebraic law is assumed.  A theorem about the polymorphic kernel therefore
  holds for every interpretation of the arithmetic in which each operator is a function of
  its operands.  The kernels are later read at two types: \<open>real\<close> (exact arithmetic) and
  \<open>double\<close> (IEEE 754 binary64, defined below).

  A C array parameter is a list; reading an index that the list does not have is undefined
  behaviour in the source and \<open>None\<close> in the model.
\<close>

subsection \<open>Kalman filter step (kalman\_filter.cpp)\<close>

definition kalman_filter ::
  "'a::{plus,minus,times,inverse,uminus,one} list \<Rightarrow> 'a \<Rightarrow> 'a list \<Rightarrow> 'a \<Rightarrow> 'a
     \<Rightarrow> ('a list \<times> 'a list) option" where
  "kalman_filter state measurement state_covariance measurement_noise process_noise =
    (if length state < 2 \<or> length state_covariance < 4 then None
     else
      let P11 = state_covariance ! 0;
          P12 = state_covariance ! 1;
          P21 = state_covariance ! 2;
          P22 = state_covariance ! 3;
          x_pred0 = state ! 0 + state ! 1;
          x_pred1 = state ! 1;
          Pp11 = (P11 + P21) + (P12 + P22) + process_noise;
          Pp12 = (P12 + P22);
          Pp21 = (P21 + P22);
          Pp22 = P22 + process_noise;
          y = measurement - x_pred0;
          S = Pp11 + measurement_noise;
          K0 = Pp11 / S;
          K1 = Pp21 / S;
          updated_state0 = x_pred0 + K0 * y;
          updated_state1 = x_pred1 + K1 * y;
          ikh00 = 1 - K0;
          ikh10 = - K1;
          A00 = ikh00 * Pp11;
          A01 = ikh00 * Pp12;
          A10 = ikh10 * Pp11 + Pp21;
          A11 = ikh10 * Pp12 + Pp22;
          P_up11 = A00 * ikh00;
          P_up12 = A00 * ikh10 + A01;
          P_up21 = A10 * ikh00;
          P_up22 = A10 * ikh10 + A11;
          P_up11 = P_up11 + K0 * measurement_noise * K0;
          P_up12 = P_up12 + K0 * measurement_noise * K1;
          P_up21 = P_up21 + K1 * measurement_noise * K0;
          P_up22 = P_up22 + K1 * measurement_noise * K1
      in Some ([updated_state0, updated_state1], [P_up11, P_up12, P_up21, P_up22]))"

text \<open>The innovation covariance \<open>S\<close> of the kernel, as a function of the inputs that
  determine it (lines 32 and 44 of the source).\<close>

definition innovation_covariance :: "'a::plus list \<Rightarrow> 'a \<Rightarrow> 'a \<Rightarrow> 'a" where
  "innovation_covariance state_covariance measurement_noise process_noise =
     (state_covariance ! 0 + state_covariance ! 2) + (state_covariance ! 1 + state_covariance ! 3)
       + process_noise + measurement_noise"

text \<open>The predicted covariance \<open>Pp11, Pp12, Pp21, Pp22\<close> (lines 32 to 35 of the source)
  and the Kalman gain \<open>K0, K1\<close> (lines 44 to 48), as functions of the inputs that determine
  them.\<close>

definition predicted_covariance :: "'a::plus list \<Rightarrow> 'a \<Rightarrow> 'a list" where
  "predicted_covariance state_covariance process_noise =
     (let P11 = state_covariance ! 0;
          P12 = state_covariance ! 1;
          P21 = state_covariance ! 2;
          P22 = state_covariance ! 3
      in [(P11 + P21) + (P12 + P22) + process_noise, P12 + P22, P21 + P22, P22 + process_noise])"

definition kalman_gain :: "'a::{plus,inverse} list \<Rightarrow> 'a \<Rightarrow> 'a \<Rightarrow> 'a \<times> 'a" where
  "kalman_gain state_covariance measurement_noise process_noise =
     (let Pp = predicted_covariance state_covariance process_noise;
          S = Pp ! 0 + measurement_noise
      in (Pp ! 0 / S, Pp ! 2 / S))"

subsection \<open>PID controller step (pid\_controller.cpp)\<close>

text \<open>The three out-pointers of the source are the three fields of the result
  (\<open>output\<close> is a reserved word of Isabelle, so the first field is \<open>pid_output\<close>).\<close>

record 'a pid_result =
  pid_output :: 'a
  new_integral :: 'a
  new_prev_error :: 'a

definition pid_controller ::
  "'a::{plus,minus,times,inverse} \<Rightarrow> 'a \<Rightarrow> 'a \<Rightarrow> 'a \<Rightarrow> 'a \<Rightarrow> 'a \<Rightarrow> 'a \<Rightarrow> 'a pid_result" where
  "pid_controller error integral prev_error kp ki kd dt =
    (let new_integral = integral + error * dt;
         derivative = (error - prev_error) / dt;
         pid_output = kp * error + ki * new_integral + kd * derivative;
         new_prev_error = error
     in \<lparr>pid_output = pid_output, new_integral = new_integral, new_prev_error = new_prev_error\<rparr>)"

subsection \<open>Low-pass filter (low\_pass\_filter.cpp)\<close>

text \<open>
  The source writes into the caller's buffer \<^verbatim>\<open>output_signal\<close>; the model takes the buffer's
  contents before the call and returns its contents after it.  \<^verbatim>\<open>n\<close> is a C \<^verbatim>\<open>int\<close>; the loop
  counter never exceeds it, so no wrap-around can occur and \<open>int\<close> models it.  The two buffers
  are distinct objects, as at both call sites of the repository.
\<close>

function low_pass_loop ::
  "'a::{plus,minus,times,one} list \<Rightarrow> 'a \<Rightarrow> int \<Rightarrow> int \<Rightarrow> 'a list \<Rightarrow> 'a list option" where
  "low_pass_loop input_signal alpha n k output_signal =
    (if k < n then
       (if 1 \<le> k \<and> nat k < length input_signal \<and> nat k < length output_signal then
          low_pass_loop input_signal alpha n (k + 1)
            (output_signal[nat k :=
               alpha * input_signal ! nat k + (1 - alpha) * output_signal ! nat (k - 1)])
        else None)
     else Some output_signal)"
  by pat_completeness auto
termination
  by (relation "measure (\<lambda>(input_signal, alpha, n, k, output_signal). nat (n - k))") auto

definition low_pass_filter ::
  "'a::{plus,minus,times,one} list \<Rightarrow> 'a \<Rightarrow> int \<Rightarrow> 'a list \<Rightarrow> 'a list option" where
  "low_pass_filter input_signal alpha n output_signal =
    (if n \<le> 0 then Some output_signal
     else if input_signal = [] \<or> output_signal = [] then None
     else low_pass_loop input_signal alpha n 1 (output_signal[0 := input_signal ! 0]))"

section \<open>Binary64 arithmetic\<close>

text \<open>
  The type \<open>double\<close> models the C++ \<^verbatim>\<open>double\<close> of the source as IEEE 754 binary64 with
  round-to-nearest-even, each operator rounded once (no fused multiply-add, no extended
  intermediate precision).
\<close>

text \<open>
  A value is a finite number \<open>(-1)\<^sup>s * m * 2\<^sup>e\<close> (\<open>Finite s m e\<close>), an infinity or a NaN (one
  NaN stands for all NaN payloads).  The finite values of the format are those with
  \<open>m < 2\<^sup>5\<^sup>3\<close> and \<open>-1074 \<le> e \<le> 971\<close>, normalised so that \<open>2\<^sup>5\<^sup>2 \<le> m\<close> unless \<open>e = -1074\<close>
  (subnormal numbers and the two zeros); \<open>is_finite\<close> below says so.
\<close>

datatype double = Finite bool nat int | Infinity bool | NaN

text \<open>The exact value of a finite double, as a real number.\<close>

definition pow2 :: "int \<Rightarrow> real" where
  "pow2 e = (if 0 \<le> e then 2 ^ nat e else 1 / 2 ^ nat (- e))"

fun valof :: "double \<Rightarrow> real" where
  "valof (Finite s m e) = (if s then - 1 else 1) * of_nat m * pow2 e"
| "valof (Infinity s) = 0"
| "valof NaN = 0"

text \<open>
  Rounding to nearest, ties to even (the default rounding mode): \<open>round_magnitude s a\<close> is the
  double of sign \<open>s\<close> nearest to the magnitude \<open>a > 0\<close>.  The exponent \<open>e\<close> is that of the binade
  of \<open>a\<close> (\<open>\<lfloor>a * 2\<^sup>1\<^sup>0\<^sup>7\<^sup>4\<rfloor>\<close> has \<open>53 + (e + 1074)\<close> bits there), and \<open>-1074\<close> below the normal
  range; the significand is \<open>a / 2\<^sup>e\<close> rounded to an integer; a significand that rounds up to
  \<open>2\<^sup>5\<^sup>3\<close> moves to the next binade, and past the largest exponent the result is an
  infinity.
\<close>

definition round_half_even :: "real \<Rightarrow> nat" where
  "round_half_even q =
     (let f = \<lfloor>q\<rfloor>; d = q - of_int f
      in nat (if d < 1 / 2 then f else if 1 / 2 < d then f + 1 else if even f then f else f + 1))"

definition round_magnitude :: "bool \<Rightarrow> real \<Rightarrow> double" where
  "round_magnitude s a =
     (let e = max (bitlen \<lfloor>a * 2 ^ 1074\<rfloor> - 53) 0 - 1074;
          m = round_half_even (a / pow2 e)
      in if 971 < e then Infinity s
         else if m = 2 ^ 53 then (if e = 971 then Infinity s else Finite s (2 ^ 52) (e + 1))
         else Finite s m e)"

text \<open>The double nearest to a real number: how a decimal literal of the source is read.\<close>

definition round_double :: "real \<Rightarrow> double" where
  "round_double r = (if r = 0 then Finite False 0 (- 1074) else round_magnitude (r < 0) \<bar>r\<bar>)"

text \<open>
  The four operations and negation: the exact result of the operands' values, rounded; the
  IEEE 754 rules for NaN, infinities, division by zero and the sign of a zero result.
\<close>

fun fadd :: "double \<Rightarrow> double \<Rightarrow> double" where
  "fadd NaN y = NaN"
| "fadd x NaN = NaN"
| "fadd (Infinity s) (Infinity t) = (if s = t then Infinity s else NaN)"
| "fadd (Infinity s) (Finite t n f) = Infinity s"
| "fadd (Finite s m e) (Infinity t) = Infinity t"
| "fadd (Finite s m e) (Finite t n f) =
     (let r = valof (Finite s m e) + valof (Finite t n f)
      in if r = 0 then Finite (s \<and> t) 0 (- 1074) else round_double r)"

fun fneg :: "double \<Rightarrow> double" where
  "fneg (Finite s m e) = Finite (\<not> s) m e"
| "fneg (Infinity s) = Infinity (\<not> s)"
| "fneg NaN = NaN"

fun fmul :: "double \<Rightarrow> double \<Rightarrow> double" where
  "fmul NaN y = NaN"
| "fmul x NaN = NaN"
| "fmul (Infinity s) (Infinity t) = Infinity (s \<noteq> t)"
| "fmul (Infinity s) (Finite t n f) = (if n = 0 then NaN else Infinity (s \<noteq> t))"
| "fmul (Finite s m e) (Infinity t) = (if m = 0 then NaN else Infinity (s \<noteq> t))"
| "fmul (Finite s m e) (Finite t n f) =
     (if m = 0 \<or> n = 0 then Finite (s \<noteq> t) 0 (- 1074)
      else round_magnitude (s \<noteq> t) (of_nat m * pow2 e * (of_nat n * pow2 f)))"

fun fdiv :: "double \<Rightarrow> double \<Rightarrow> double" where
  "fdiv NaN y = NaN"
| "fdiv x NaN = NaN"
| "fdiv (Infinity s) (Infinity t) = NaN"
| "fdiv (Infinity s) (Finite t n f) = Infinity (s \<noteq> t)"
| "fdiv (Finite s m e) (Infinity t) = Finite (s \<noteq> t) 0 (- 1074)"
| "fdiv (Finite s m e) (Finite t n f) =
     (if n = 0 then (if m = 0 then NaN else Infinity (s \<noteq> t))
      else if m = 0 then Finite (s \<noteq> t) 0 (- 1074)
      else round_magnitude (s \<noteq> t) (of_nat m * pow2 e / (of_nat n * pow2 f)))"

text \<open>The operators of the source at type \<open>double\<close>.  \<open>x - y\<close> is \<open>x + (- y)\<close>, as in
  IEEE 754.\<close>

instantiation double :: "{zero,one,plus,minus,uminus,times,inverse}"
begin
definition zero_double :: double where "zero_double = Finite False 0 (- 1074)"
definition one_double :: double where "one_double = Finite False (2 ^ 52) (- 52)"
definition plus_double :: "double \<Rightarrow> double \<Rightarrow> double" where "plus_double = fadd"
definition uminus_double :: "double \<Rightarrow> double" where "uminus_double = fneg"
definition minus_double :: "double \<Rightarrow> double \<Rightarrow> double" where "minus_double x y = fadd x (fneg y)"
definition times_double :: "double \<Rightarrow> double \<Rightarrow> double" where "times_double = fmul"
definition divide_double :: "double \<Rightarrow> double \<Rightarrow> double" where "divide_double = fdiv"
definition inverse_double :: "double \<Rightarrow> double" where "inverse_double x = fdiv (Finite False (2 ^ 52) (- 52)) x"
instance ..
end

text \<open>The finite values of the format.\<close>

fun is_finite :: "double \<Rightarrow> bool" where
  "is_finite (Finite s m e) = (m < 2 ^ 53 \<and> - 1074 \<le> e \<and> e \<le> 971 \<and> (2 ^ 52 \<le> m \<or> e = - 1074))"
| "is_finite (Infinity s) = False"
| "is_finite NaN = False"

text \<open>The operator \<^verbatim>\<open>==\<close> of the source on doubles: a NaN equals nothing, the two zeros are
  equal.\<close>

fun double_eq :: "double \<Rightarrow> double \<Rightarrow> bool" where
  "double_eq (Finite s m e) (Finite t n f) = (valof (Finite s m e) = valof (Finite t n f))"
| "double_eq (Infinity s) (Infinity t) = (s = t)"
| "double_eq x y = False"

text \<open>The two zeros.\<close>

fun is_zero :: "double \<Rightarrow> bool" where
  "is_zero (Finite s m e) = (m = 0)"
| "is_zero x = False"

text \<open>The numbers: every value that is neither an infinity nor a NaN (\<open>is_finite\<close> asks in
  addition that the representation is that of the format).\<close>

fun is_number :: "double \<Rightarrow> bool" where
  "is_number (Finite s m e) = True"
| "is_number (Infinity s) = False"
| "is_number NaN = False"

text \<open>
  The distance that rounding can put between the two off-diagonal entries of the updated
  covariance.  Both entries are roundings of the same sum of three products,
  \<open>(1 - K0) * Pp11 * (- K1)\<close>, \<open>(1 - K0) * Pp12\<close> and \<open>K0 * R * K1\<close>, of the values that the kernel
  has computed for \<open>1 - K0\<close>, \<open>K0\<close>, \<open>K1\<close>, \<open>Pp11\<close> and \<open>Pp12\<close>.  The tolerance is \<open>2\<^sup>-\<^sup>4\<^sup>9\<close> times
  the sum of the magnitudes of the three products (sixteen units of relative rounding error
  \<open>2\<^sup>-\<^sup>5\<^sup>3\<close>), plus a term for results in the subnormal range, where the error of one rounding is
  at most \<open>2\<^sup>-\<^sup>1\<^sup>0\<^sup>7\<^sup>5\<close>.
\<close>

definition joseph_tolerance :: "double list \<Rightarrow> double \<Rightarrow> double \<Rightarrow> real" where
  "joseph_tolerance state_covariance measurement_noise process_noise =
     (let Pp = predicted_covariance state_covariance process_noise;
          K = kalman_gain state_covariance measurement_noise process_noise;
          a = \<bar>valof (1 - fst K)\<bar>;
          k0 = \<bar>valof (fst K)\<bar>;
          k1 = \<bar>valof (snd K)\<bar>;
          p = \<bar>valof (Pp ! 0)\<bar>;
          q = \<bar>valof (Pp ! 1)\<bar>;
          r = \<bar>valof measurement_noise\<bar>
      in (a * p * k1 + a * q + k0 * r * k1) / 2 ^ 49 + (1 + a + k0 + k1) / 2 ^ 1071)"

section \<open>Test harness (test\_kalman\_filter.cpp and its siblings)\<close>

subsection \<open>JSON documents and the operations of the JSON library the harness uses\<close>

text \<open>
  A parsed document.  Numbers are the doubles that \<^verbatim>\<open>get<double>()\<close> returns.  An object is the
  list of its members; a key is looked up with \<open>map_of\<close>.
\<close>

datatype json =
    JNull
  | JBool bool
  | JNumber double
  | JString string
  | JArray "json list"
  | JObject "(string \<times> json) list"


text \<open>
  Exceptions and undefined behaviour are values: \<open>parse_error\<close> (\<^verbatim>\<open>json::parse\<close> on a malformed
  file), \<open>type_error\<close> (a \<^verbatim>\<open>get\<close> or an \<^verbatim>\<open>operator[]\<close> on a value of the wrong kind) and
  \<open>undefined_behaviour\<close> (a missing key under the \<^verbatim>\<open>const\<close> \<^verbatim>\<open>operator[]\<close>, an index past the end
  of a \<^verbatim>\<open>std::vector\<close>).  \<open>and_then\<close> sequences two steps and stops at the first error.
\<close>

datatype load_error = parse_error | type_error | undefined_behaviour

definition and_then :: "load_error + 'a \<Rightarrow> ('a \<Rightarrow> load_error + 'b) \<Rightarrow> load_error + 'b" where
  "and_then r f = (case r of Inl e \<Rightarrow> Inl e | Inr v \<Rightarrow> f v)"

text \<open>
  \<open>contains\<close> is \<^verbatim>\<open>j.contains(key)\<close>; \<open>at_const\<close> is \<^verbatim>\<open>j[key]\<close> on a \<^verbatim>\<open>const\<close> value and
  \<open>at_mutable\<close> on a mutable one (which yields null for a missing key); \<open>get_double\<close>,
  \<open>get_string\<close> and \<open>get_vector_double\<close> are \<^verbatim>\<open>get<T>()\<close>; \<open>value_string\<close> is
  \<^verbatim>\<open>j.value(key, default)\<close>; \<open>items\<close> is what a range-based \<^verbatim>\<open>for\<close> over a value visits.
\<close>

fun contains :: "json \<Rightarrow> string \<Rightarrow> bool" where
  "contains (JObject members) key = (map_of members key \<noteq> None)"
| "contains j key = False"

fun at_const :: "json \<Rightarrow> string \<Rightarrow> load_error + json" where
  "at_const (JObject members) key =
     (case map_of members key of Some v \<Rightarrow> Inr v | None \<Rightarrow> Inl undefined_behaviour)"
| "at_const j key = Inl type_error"

fun at_mutable :: "json \<Rightarrow> string \<Rightarrow> load_error + json" where
  "at_mutable (JObject members) key =
     (case map_of members key of Some v \<Rightarrow> Inr v | None \<Rightarrow> Inr JNull)"
| "at_mutable JNull key = Inr JNull"
| "at_mutable j key = Inl type_error"

fun get_double :: "json \<Rightarrow> load_error + double" where
  "get_double (JNumber x) = Inr x"
| "get_double j = Inl type_error"

fun get_string :: "json \<Rightarrow> load_error + string" where
  "get_string (JString s) = Inr s"
| "get_string j = Inl type_error"

fun get_doubles :: "json list \<Rightarrow> load_error + double list" where
  "get_doubles [] = Inr []"
| "get_doubles (j # js) =
     and_then (get_double j) (\<lambda>x. and_then (get_doubles js) (\<lambda>xs. Inr (x # xs)))"

fun get_vector_double :: "json \<Rightarrow> load_error + double list" where
  "get_vector_double (JArray js) = get_doubles js"
| "get_vector_double j = Inl type_error"

fun value_string :: "json \<Rightarrow> string \<Rightarrow> string \<Rightarrow> load_error + string" where
  "value_string (JObject members) key dflt =
     (case map_of members key of Some v \<Rightarrow> get_string v | None \<Rightarrow> Inr dflt)"
| "value_string j key dflt = Inl type_error"

fun items :: "json \<Rightarrow> json list" where
  "items (JArray js) = js"
| "items (JObject members) = map snd members"
| "items JNull = []"
| "items j = [j]"

subsection \<open>Test cases and the directory of vector files\<close>

text \<open>
  The \<^verbatim>\<open>TestCase\<close> structs of the three harness files differ only in their algorithm-specific
  input and expected-output members; these are gathered in the field \<open>algorithm_fields\<close>.
  For the Kalman harness they are \<open>kalman_fields\<close>.
\<close>

record 'f TestCase =
  name :: string
  description :: string
  algorithm_fields :: 'f
  abs_tolerance :: double

record kalman_fields =
  state :: "double list"
  measurement :: double
  state_covariance :: "double list"
  measurement_noise :: double
  process_noise :: double
  expected_state :: "double list"
  expected_covariance :: "double list"

text \<open>
  One entry of \<^verbatim>\<open>fs::directory_iterator(dir)\<close>: what \<^verbatim>\<open>entry.path().extension()\<close> and
  \<^verbatim>\<open>entry.path().filename()\<close> return, whether the \<^verbatim>\<open>std::ifstream\<close> opens, and what
  \<^verbatim>\<open>json::parse\<close> returns for the file (\<open>None\<close> when it throws).  A directory is the list of
  its entries in iteration order.
\<close>

record dir_entry =
  path_extension :: string
  path_filename :: string
  is_open :: bool
  json_parse :: "json option"

subsection \<open>LoadTestVectors\<close>

text \<open>
  \<open>absolute_or j key dflt\<close> is the pattern that the loader uses twice (lines 74--78 with
  \<^verbatim>\<open>"global_tolerance"\<close>, lines 97--100 with \<^verbatim>\<open>"tolerance"\<close>): the variable keeps \<open>dflt\<close> unless
  \<^verbatim>\<open>j.contains(key) && j[key].contains("absolute")\<close>, and then becomes
  \<^verbatim>\<open>j[key]["absolute"].get<double>()\<close>.
\<close>

definition absolute_or :: "json \<Rightarrow> string \<Rightarrow> double \<Rightarrow> load_error + double" where
  "absolute_or j key dflt =
     (if contains j key then
        and_then (at_const j key) (\<lambda>tol.
          if contains tol ''absolute'' then and_then (at_const tol ''absolute'') get_double
          else Inr dflt)
      else Inr dflt)"

text \<open>The ``Parse inputs'' and ``Parse expected outputs'' blocks of the Kalman loader
  (lines 85--94).\<close>

definition parse_kalman_fields :: "json \<Rightarrow> load_error + kalman_fields" where
  "parse_kalman_fields tc =
     and_then (at_const tc ''inputs'') (\<lambda>inputs.
     and_then (and_then (at_const inputs ''state'') get_vector_double) (\<lambda>state.
     and_then (and_then (at_const inputs ''measurement'') get_double) (\<lambda>measurement.
     and_then (and_then (at_const inputs ''state_covariance'') get_vector_double) (\<lambda>state_covariance.
     and_then (and_then (at_const inputs ''measurement_noise'') get_double) (\<lambda>measurement_noise.
     and_then (and_then (at_const inputs ''process_noise'') get_double) (\<lambda>process_noise.
     and_then (at_const tc ''expected_output'') (\<lambda>expected.
     and_then (and_then (at_const expected ''updated_state'') get_vector_double) (\<lambda>expected_state.
     and_then (and_then (at_const expected ''updated_covariance'') get_vector_double) (\<lambda>expected_covariance.
     Inr \<lparr>state = state, measurement = measurement, state_covariance = state_covariance,
          measurement_noise = measurement_noise, process_noise = process_noise,
          expected_state = expected_state, expected_covariance = expected_covariance\<rparr>)))))))))"

text \<open>
  The body of the loop over \<^verbatim>\<open>data["test_cases"]\<close> (lines 81--102), the loop itself with the
  vector \<^verbatim>\<open>cases\<close> it appends to, and the loop over the directory (lines 64--104).  The
  loaders of the three harness files are \<open>LoadTestVectors\<close> with their own \<open>parse_fields\<close>.
  The literal \<^verbatim>\<open>1e-10\<close> is the double nearest to \<open>10\<^sup>-\<^sup>1\<^sup>0\<close>.
\<close>

definition parse_test_case ::
  "(json \<Rightarrow> load_error + 'f) \<Rightarrow> double \<Rightarrow> json \<Rightarrow> load_error + 'f TestCase" where
  "parse_test_case parse_fields global_abs_tol tc =
     and_then (and_then (at_const tc ''name'') get_string) (\<lambda>name.
     and_then (value_string tc ''description'' '''') (\<lambda>description.
     and_then (parse_fields tc) (\<lambda>fields.
     and_then (absolute_or tc ''tolerance'' global_abs_tol) (\<lambda>abs_tolerance.
     Inr \<lparr>name = name, description = description, algorithm_fields = fields,
          abs_tolerance = abs_tolerance\<rparr>))))"

fun parse_test_cases ::
  "(json \<Rightarrow> load_error + 'f) \<Rightarrow> double \<Rightarrow> json list \<Rightarrow> 'f TestCase list
     \<Rightarrow> load_error + 'f TestCase list" where
  "parse_test_cases parse_fields global_abs_tol [] cases = Inr cases"
| "parse_test_cases parse_fields global_abs_tol (tc # tcs) cases =
     and_then (parse_test_case parse_fields global_abs_tol tc) (\<lambda>t.
       parse_test_cases parse_fields global_abs_tol tcs (cases @ [t]))"

fun load_entries ::
  "(json \<Rightarrow> load_error + 'f) \<Rightarrow> dir_entry list \<Rightarrow> 'f TestCase list
     \<Rightarrow> load_error + 'f TestCase list" where
  "load_entries parse_fields [] cases = Inr cases"
| "load_entries parse_fields (entry # entries) cases =
     (if path_extension entry \<noteq> ''.json'' then load_entries parse_fields entries cases
      else if path_filename entry = ''schema.json'' then load_entries parse_fields entries cases
      else if \<not> is_open entry then load_entries parse_fields entries cases
      else case json_parse entry of
        None \<Rightarrow> Inl parse_error
      | Some data \<Rightarrow>
          and_then (absolute_or data ''global_tolerance'' (round_double (1 / 10 ^ 10)))
            (\<lambda>global_abs_tol.
          and_then (at_mutable data ''test_cases'') (\<lambda>test_cases.
          and_then (parse_test_cases parse_fields global_abs_tol (items test_cases) cases)
            (\<lambda>cases. load_entries parse_fields entries cases))))"

definition LoadTestVectors ::
  "(json \<Rightarrow> load_error + 'f) \<Rightarrow> dir_entry list \<Rightarrow> load_error + 'f TestCase list" where
  "LoadTestVectors parse_fields dir = load_entries parse_fields dir []"

subsection \<open>The conformance test and the equivalence export\<close>

text \<open>
  \<open>MatchesExpectedOutput_actual\<close> is the part of the parameterised test that computes the
  actual outputs (lines 114--130: the arrays built from the case and the kernel call); the
  assertions that follow only read them.  Indexing a vector past its end is undefined
  behaviour.
\<close>

definition MatchesExpectedOutput_actual ::
  "kalman_fields TestCase \<Rightarrow> load_error + (double list \<times> double list)" where
  "MatchesExpectedOutput_actual tc =
     (if length (state (algorithm_fields tc)) < 2
         \<or> length (state_covariance (algorithm_fields tc)) < 4 then Inl undefined_behaviour
      else
        let state = [state (algorithm_fields tc) ! 0, state (algorithm_fields tc) ! 1];
            cov = [state_covariance (algorithm_fields tc) ! 0,
                   state_covariance (algorithm_fields tc) ! 1,
                   state_covariance (algorithm_fields tc) ! 2,
                   state_covariance (algorithm_fields tc) ! 3]
        in case kalman_filter state (measurement (algorithm_fields tc)) cov
                  (measurement_noise (algorithm_fields tc)) (process_noise (algorithm_fields tc)) of
             None \<Rightarrow> Inl undefined_behaviour
           | Some (updated_state, updated_cov) \<Rightarrow> Inr (updated_state, updated_cov))"

text \<open>
  \<open>TearDown\<close> (lines 170--193) loads the vectors again and runs the kernel on every case,
  appending one record per case to \<^verbatim>\<open>outputs\<close>; the list it returns is what is written to
  \<^verbatim>\<open>cpp_outputs.json\<close>.  Both passes read the same directory \<^verbatim>\<open>TEST_VECTORS_DIR\<close>, which is
  the argument \<open>dir\<close> here.
\<close>

record EquivalenceRecord =
  test_name :: string
  actual_updated_state :: "double list"
  actual_updated_covariance :: "double list"
  tolerance :: double

fun export_cases ::
  "kalman_fields TestCase list \<Rightarrow> EquivalenceRecord list \<Rightarrow> load_error + EquivalenceRecord list" where
  "export_cases [] outputs = Inr outputs"
| "export_cases (tc # cases) outputs =
     (if length (state (algorithm_fields tc)) < 2
         \<or> length (state_covariance (algorithm_fields tc)) < 4 then Inl undefined_behaviour
      else
        let state = [state (algorithm_fields tc) ! 0, state (algorithm_fields tc) ! 1];
            cov = [state_covariance (algorithm_fields tc) ! 0,
                   state_covariance (algorithm_fields tc) ! 1,
                   state_covariance (algorithm_fields tc) ! 2,
                   state_covariance (algorithm_fields tc) ! 3]
        in case kalman_filter state (measurement (algorithm_fields tc)) cov
                  (measurement_noise (algorithm_fields tc)) (process_noise (algorithm_fields tc)) of
             None \<Rightarrow> Inl undefined_behaviour
           | Some (updated_state, updated_cov) \<Rightarrow>
               export_cases cases
                 (outputs @
                  [\<lparr>test_name = name tc,
                    actual_updated_state = [updated_state ! 0, updated_state ! 1],
                    actual_updated_covariance =
                      [updated_cov ! 0, updated_cov ! 1, updated_cov ! 2, updated_cov ! 3],
                    tolerance = abs_tolerance tc\<rparr>]))"

definition TearDown :: "dir_entry list \<Rightarrow> load_error + EquivalenceRecord list" where
  "TearDown dir =
     and_then (LoadTestVectors parse_kalman_fields dir) (\<lambda>cases. export_cases cases [])"

subsection \<open>Tolerance resolution as the specification words it\<close>

text \<open>
  \<open>optional_absolute j key\<close> is the optional number \<open>j.key.absolute\<close> of a document or a
  case; \<open>resolved_tolerance\<close> is ``case override if present, else suite global, else the
  hard-coded default \<open>1e-10\<close>''; \<open>discovered_cases\<close> lists every test case of every vector
  file in discovery order, each with the document it comes from.
\<close>

definition optional_absolute :: "json \<Rightarrow> string \<Rightarrow> double option" where
  "optional_absolute j key =
     (case j of
        JObject members \<Rightarrow>
          (case map_of members key of
             Some (JObject tol) \<Rightarrow>
               (case map_of tol ''absolute'' of Some (JNumber x) \<Rightarrow> Some x | _ \<Rightarrow> None)
           | _ \<Rightarrow> None)
      | _ \<Rightarrow> None)"

definition resolved_tolerance :: "double option \<Rightarrow> double option \<Rightarrow> double" where
  "resolved_tolerance case_override suite_global =
     (case case_override of
        Some t \<Rightarrow> t
      | None \<Rightarrow> (case suite_global of Some g \<Rightarrow> g | None \<Rightarrow> round_double (1 / 10 ^ 10)))"

definition discovered_cases :: "dir_entry list \<Rightarrow> (json \<times> json) list" where
  "discovered_cases dir =
     concat (map (\<lambda>entry.
       if path_extension entry = ''.json'' \<and> path_filename entry \<noteq> ''schema.json''
          \<and> is_open entry
       then (case json_parse entry of
               Some data \<Rightarrow>
                 (case at_mutable data ''test_cases'' of
                    Inr test_cases \<Rightarrow> map (\<lambda>tc. (data, tc)) (items test_cases)
                  | Inl e \<Rightarrow> [])
             | None \<Rightarrow> [])
       else []) dir)"

subsection \<open>An example directory\<close>

text \<open>
  Three entries: a suite with \<open>global_tolerance.absolute = 1e-6\<close> and two cases, the second
  with \<open>tolerance.absolute = 1e-3\<close>; the reserved \<^verbatim>\<open>schema.json\<close>; and a suite with no
  \<open>global_tolerance\<close> and one case.
\<close>

definition example_case :: "string \<Rightarrow> (string \<times> json) list \<Rightarrow> json" where
  "example_case nm extra =
     JObject ([(''name'', JString nm),
               (''inputs'', JObject
                  [(''state'', JArray [JNumber 0, JNumber 0]),
                   (''measurement'', JNumber 0),
                   (''state_covariance'', JArray [JNumber 0, JNumber 0, JNumber 0, JNumber 0]),
                   (''measurement_noise'', JNumber 1),
                   (''process_noise'', JNumber 0)]),
               (''expected_output'', JObject
                  [(''updated_state'', JArray [JNumber 0, JNumber 0]),
                   (''updated_covariance'', JArray [JNumber 0, JNumber 0, JNumber 0, JNumber 0])])]
              @ extra)"

definition example_dir :: "dir_entry list" where
  "example_dir =
     [\<lparr>path_extension = ''.json'', path_filename = ''suite.json'', is_open = True,
       json_parse = Some (JObject
         [(''global_tolerance'', JObject [(''absolute'', JNumber (round_double (1 / 10 ^ 6)))]),
          (''test_cases'', JArray
             [example_case ''a'' [],
              example_case ''b''
                [(''tolerance'', JObject [(''absolute'', JNumber (round_double (1 / 10 ^ 3)))])]])])\<rparr>,
      \<lparr>path_extension = ''.json'', path_filename = ''schema.json'', is_open = True,
       json_parse = None\<rparr>,
      \<lparr>path_extension = ''.json'', path_filename = ''plain.json'', is_open = True,
       json_parse = Some (JObject [(''test_cases'', JArray [example_case ''c'' []])])\<rparr>]"

definition example_test_case :: "string \<Rightarrow> double \<Rightarrow> kalman_fields TestCase" where
  "example_test_case nm tol =
     \<lparr>name = nm, description = [],
      algorithm_fields =
        \<lparr>state = [0, 0], measurement = 0, state_covariance = [0, 0, 0, 0],
         measurement_noise = 1, process_noise = 0,
         expected_state = [0, 0], expected_covariance = [0, 0, 0, 0]\<rparr>,
      abs_tolerance = tol\<rparr>"

section \<open>Properties of the kernels that hold for every arithmetic\<close>

lemma kalman_filter_defined:
  "2 \<le> length x \<Longrightarrow> 4 \<le> length P \<Longrightarrow>
   \<exists>us uc. kalman_filter x z P R Q = Some (us, uc) \<and> length us = 2 \<and> length uc = 4"
  by (simp add: kalman_filter_def Let_def)

subsection \<open>The low-pass loop\<close>

text \<open>The loop invariant: started at index \<open>k\<close> with buffers that hold \<open>n\<close> samples, the loop
  returns, leaves the samples below \<open>k\<close> and from \<open>n\<close> on as they were, and every sample it
  writes satisfies the recurrence.\<close>

lemma low_pass_loop_spec:
  "1 \<le> k \<Longrightarrow> k \<le> n \<Longrightarrow> nat n \<le> length input_signal \<Longrightarrow> nat n \<le> length output_signal \<Longrightarrow>
   \<exists>out. low_pass_loop input_signal alpha n k output_signal = Some out
     \<and> length out = length output_signal
     \<and> (\<forall>i. i < nat k \<longrightarrow> out ! i = output_signal ! i)
     \<and> (\<forall>i. nat k \<le> i \<and> i < nat n \<longrightarrow>
            out ! i = alpha * input_signal ! i + (1 - alpha) * out ! (i - 1))
     \<and> (\<forall>i. nat n \<le> i \<and> i < length output_signal \<longrightarrow> out ! i = output_signal ! i)"
proof (induction input_signal alpha n k output_signal rule: low_pass_loop.induct)
  case (1 input_signal alpha n k output_signal)
  show ?case
  proof (cases "k < n")
    case False
    with "1.prems" have "k = n" by simp
    then show ?thesis by (subst low_pass_loop.simps) auto
  next
    case True
    let ?v = "alpha * input_signal ! nat k + (1 - alpha) * output_signal ! nat (k - 1)"
    let ?o = "output_signal[nat k := ?v]"
    from True "1.prems" have guard: "1 \<le> k \<and> nat k < length input_signal \<and> nat k < length output_signal"
      by auto
    from True "1.prems" have pre: "1 \<le> k + 1" "k + 1 \<le> n" "nat n \<le> length input_signal"
      "nat n \<le> length ?o" by auto
    from "1.IH"[OF True guard pre] obtain out where
      run: "low_pass_loop input_signal alpha n (k + 1) ?o = Some out"
      and len: "length out = length ?o"
      and low: "\<forall>i. i < nat (k + 1) \<longrightarrow> out ! i = ?o ! i"
      and rec: "\<forall>i. nat (k + 1) \<le> i \<and> i < nat n \<longrightarrow>
            out ! i = alpha * input_signal ! i + (1 - alpha) * out ! (i - 1)"
      and high: "\<forall>i. nat n \<le> i \<and> i < length ?o \<longrightarrow> out ! i = ?o ! i"
      by blast
    have eq: "low_pass_loop input_signal alpha n k output_signal = Some out"
      using True guard run by (subst low_pass_loop.simps) simp
    have nk: "nat (k + 1) = Suc (nat k)" using guard by linarith
    have a: "\<forall>i. i < nat k \<longrightarrow> out ! i = output_signal ! i"
      using low nk by simp
    have atk: "out ! nat k = ?v" using low nk guard by simp
    have prev: "out ! (nat k - 1) = output_signal ! nat (k - 1)"
    proof -
      have "nat k - 1 < nat k" using guard by linarith
      moreover have "nat (k - 1) = nat k - 1" using guard by linarith
      ultimately show ?thesis using a by simp
    qed
    have b: "\<forall>i. nat k \<le> i \<and> i < nat n \<longrightarrow>
            out ! i = alpha * input_signal ! i + (1 - alpha) * out ! (i - 1)"
    proof (intro allI impI)
      fix i assume i: "nat k \<le> i \<and> i < nat n"
      show "out ! i = alpha * input_signal ! i + (1 - alpha) * out ! (i - 1)"
      proof (cases "i = nat k")
        case True
        then show ?thesis using atk prev by simp
      next
        case False
        with i nk have "nat (k + 1) \<le> i \<and> i < nat n" by simp
        with rec show ?thesis by blast
      qed
    qed
    have c: "\<forall>i. nat n \<le> i \<and> i < length output_signal \<longrightarrow> out ! i = output_signal ! i"
      using high True guard by auto
    from eq len a b c show ?thesis by simp
  qed
qed

text \<open>The whole call: what it returns for \<open>n \<le> 0\<close> and for \<open>n \<ge> 1\<close>.\<close>

lemma low_pass_filter_run:
  "(n \<le> 0 \<longrightarrow> low_pass_filter input_signal alpha n output_signal = Some output_signal)
   \<and> (0 < n \<and> nat n \<le> length input_signal \<and> nat n \<le> length output_signal \<longrightarrow>
        (\<exists>out. low_pass_filter input_signal alpha n output_signal = Some out
           \<and> length out = length output_signal
           \<and> out ! 0 = input_signal ! 0
           \<and> (\<forall>k. 1 \<le> k \<and> k < nat n \<longrightarrow>
                 out ! k = alpha * input_signal ! k + (1 - alpha) * out ! (k - 1))
           \<and> (\<forall>i. nat n \<le> i \<and> i < length output_signal \<longrightarrow> out ! i = output_signal ! i)))"
proof (intro conjI impI)
  assume "n \<le> 0"
  then show "low_pass_filter input_signal alpha n output_signal = Some output_signal"
    by (simp add: low_pass_filter_def)
next
  assume h: "0 < n \<and> nat n \<le> length input_signal \<and> nat n \<le> length output_signal"
  let ?o = "output_signal[0 := input_signal ! 0]"
  from h have ne: "input_signal \<noteq> []" "output_signal \<noteq> []" by auto
  from h have pre: "(1::int) \<le> 1" "1 \<le> n" "nat n \<le> length input_signal" "nat n \<le> length ?o"
    by auto
  from low_pass_loop_spec[OF pre, of alpha] obtain out where
    run: "low_pass_loop input_signal alpha n 1 ?o = Some out"
    and len: "length out = length ?o"
    and low: "\<forall>i. i < nat 1 \<longrightarrow> out ! i = ?o ! i"
    and rec: "\<forall>i. nat 1 \<le> i \<and> i < nat n \<longrightarrow>
          out ! i = alpha * input_signal ! i + (1 - alpha) * out ! (i - 1)"
    and high: "\<forall>i. nat n \<le> i \<and> i < length ?o \<longrightarrow> out ! i = ?o ! i"
    by blast
  have eq: "low_pass_filter input_signal alpha n output_signal = Some out"
    using h ne run by (simp add: low_pass_filter_def)
  have z: "out ! 0 = input_signal ! 0" using low ne by simp
  have hi: "\<forall>i. nat n \<le> i \<and> i < length output_signal \<longrightarrow> out ! i = output_signal ! i"
    using high h by auto
  from eq len z rec hi
  show "\<exists>out. low_pass_filter input_signal alpha n output_signal = Some out
           \<and> length out = length output_signal
           \<and> out ! 0 = input_signal ! 0
           \<and> (\<forall>k. 1 \<le> k \<and> k < nat n \<longrightarrow>
                 out ! k = alpha * input_signal ! k + (1 - alpha) * out ! (k - 1))
           \<and> (\<forall>i. nat n \<le> i \<and> i < length output_signal \<longrightarrow> out ! i = output_signal ! i)"
    by simp
qed

text \<open>
  \<^bold>\<open>Claim C3.\<close>  For every input sequence of \<open>n\<close> samples (and an output buffer with room for
  \<open>n\<close> samples) and every \<open>alpha\<close>, \<open>low_pass_filter\<close> returns with \<open>output[0] = input[0]\<close> and
  \<open>output[k] = alpha * input[k] + (1 - alpha) * output[k - 1]\<close> for \<open>1 \<le> k < n\<close>; samples of the
  buffer from index \<open>n\<close> on are not touched.  Whenever \<open>n \<le> 0\<close> the call returns normally with
  the output buffer exactly as it was, for all buffers whatsoever; this includes buffers of
  length zero, on which any read or write would be out of bounds (\<open>None\<close> in the model), so
  the call accesses neither buffer.  The arithmetic is arbitrary: the recurrence holds with
  the scalar type's own \<open>+\<close>, \<open>-\<close>, \<open>*\<close> and \<open>1\<close>.
\<close>

theorem low_pass_filter_recurrence:
  "(n \<le> 0 \<longrightarrow> low_pass_filter input_signal alpha n output_signal = Some output_signal)
   \<and> (0 < n \<and> nat n \<le> length input_signal \<and> nat n \<le> length output_signal \<longrightarrow>
        (\<exists>out. low_pass_filter input_signal alpha n output_signal = Some out
           \<and> length out = length output_signal
           \<and> out ! 0 = input_signal ! 0
           \<and> (\<forall>k. 1 \<le> k \<and> k < nat n \<longrightarrow>
                 out ! k = alpha * input_signal ! k + (1 - alpha) * out ! (k - 1))
           \<and> (\<forall>i. nat n \<le> i \<and> i < length output_signal \<longrightarrow> out ! i = output_signal ! i)))"
  by (rule low_pass_filter_run)

theorem low_pass_filter_recurrence_witness:
  "(0::int) < 3 \<and> nat 3 \<le> length [1, 2, 3 :: real] \<and> nat 3 \<le> length [0, 0, 0 :: real]
   \<and> low_pass_filter [1, 2, 3 :: real] (1 / 2) 3 [0, 0, 0] = Some [1, 3 / 2, 9 / 4]
   \<and> low_pass_filter ([] :: real list) (1 / 2) 0 [] = Some []"
proof -
  have pre: "(0::int) < 3 \<and> nat 3 \<le> length [1, 2, 3 :: real] \<and> nat 3 \<le> length [0, 0, 0 :: real]"
    by simp
  from low_pass_filter_recurrence[of 3 "[1, 2, 3 :: real]" "1 / 2" "[0, 0, 0]"] pre
  obtain out where run: "low_pass_filter [1, 2, 3 :: real] (1 / 2) 3 [0, 0, 0] = Some out"
    and len: "length out = 3"
    and z: "out ! 0 = 1"
    and rec: "\<forall>k. 1 \<le> k \<and> k < nat 3 \<longrightarrow> out ! k = 1 / 2 * [1, 2, 3 :: real] ! k + (1 - 1 / 2) * out ! (k - 1)"
    by auto
  from rec have "out ! 1 = 1 / 2 * [1, 2, 3 :: real] ! 1 + (1 - 1 / 2) * out ! (1 - 1)" by simp
  with z have o1: "out ! 1 = 3 / 2" by simp
  from rec have "out ! 2 = 1 / 2 * [1, 2, 3 :: real] ! 2 + (1 - 1 / 2) * out ! (2 - 1)" by simp
  with o1 have o2: "out ! 2 = 9 / 4" by simp
  have "out = [1, 3 / 2, 9 / 4]"
  proof (rule nth_equalityI)
    show "length out = length [1, 3 / 2, 9 / 4 :: real]" using len by simp
  next
    fix i assume "i < length out"
    with len have "i = 0 \<or> i = 1 \<or> i = 2" by auto
    then show "out ! i = [1, 3 / 2, 9 / 4] ! i" using z o1 o2 by auto
  qed
  with run have a: "low_pass_filter [1, 2, 3 :: real] (1 / 2) 3 [0, 0, 0] = Some [1, 3 / 2, 9 / 4]"
    by simp
  have b: "low_pass_filter ([] :: real list) (1 / 2) 0 [] = Some []"
    using low_pass_filter_recurrence[of 0 "[] :: real list" "1 / 2" "[]"] by simp
  from pre a b show ?thesis by simp
qed

subsection \<open>The PID step\<close>

text \<open>
  \<^bold>\<open>Claim C5.\<close>  For every PID input, \<open>new_prev_error\<close> is the input \<open>error\<close> itself, and
  \<open>new_integral\<close> is the value of the single expression \<open>integral + error * dt\<close> (one
  multiplication and one addition of the scalar type, nothing else applied to it).
\<close>

theorem pid_controller_carry:
  "new_prev_error (pid_controller error integral prev_error kp ki kd dt) = error
   \<and> new_integral (pid_controller error integral prev_error kp ki kd dt) = integral + error * dt"
  by (simp add: pid_controller_def Let_def)

subsection \<open>The Kalman step: the covariance does not depend on the state or the measurement\<close>

text \<open>
  \<^bold>\<open>Claim C9.\<close>  Two invocations of \<open>kalman_filter\<close> that agree on the covariance \<open>P\<close>, the
  measurement noise \<open>R\<close> and the process noise \<open>Q\<close> return the same four \<open>updated_covariance\<close>
  values, whatever their state vectors \<open>x\<close>, \<open>x'\<close> and measurements \<open>z\<close>, \<open>z'\<close> are.
\<close>

theorem kalman_covariance_independent_of_state:
  "2 \<le> length x \<Longrightarrow> 2 \<le> length x' \<Longrightarrow> 4 \<le> length P \<Longrightarrow>
   \<exists>us us' uc.
     kalman_filter x z P R Q = Some (us, uc)
     \<and> kalman_filter x' z' P R Q = Some (us', uc)
     \<and> length uc = 4"
  by (simp add: kalman_filter_def Let_def)

theorem kalman_covariance_independent_of_state_witness:
  "2 \<le> length [0, 0 :: real] \<and> 2 \<le> length [5, - 3 :: real] \<and> 4 \<le> length [10, 0, 0, 10 :: real]
   \<and> (\<exists>us us' uc.
        kalman_filter [0, 0 :: real] 1 [10, 0, 0, 10] 2 (1 / 10) = Some (us, uc)
        \<and> kalman_filter [5, - 3 :: real] 7 [10, 0, 0, 10] 2 (1 / 10) = Some (us', uc)
        \<and> length uc = 4)
   \<and> kalman_filter [0, 0 :: real] 1 [10, 0, 0, 10] 2 (1 / 10)
       = Some ([201 / 221, 100 / 221], [402 / 221, 200 / 221, 200 / 221, 12321 / 2210])
   \<and> kalman_filter [5, - 3 :: real] 7 [10, 0, 0, 10] 2 (1 / 10)
       = Some ([1447 / 221, - 163 / 221], [402 / 221, 200 / 221, 200 / 221, 12321 / 2210])"
proof -
  have a: "kalman_filter [0, 0 :: real] 1 [10, 0, 0, 10] 2 (1 / 10)
       = Some ([201 / 221, 100 / 221], [402 / 221, 200 / 221, 200 / 221, 12321 / 2210])"
    by (simp add: kalman_filter_def Let_def)
  have b: "kalman_filter [5, - 3 :: real] 7 [10, 0, 0, 10] 2 (1 / 10)
       = Some ([1447 / 221, - 163 / 221], [402 / 221, 200 / 221, 200 / 221, 12321 / 2210])"
    by (simp add: kalman_filter_def Let_def)
  from kalman_covariance_independent_of_state[where x = "[0, 0 :: real]" and x' = "[5, - 3]"
      and P = "[10, 0, 0, 10]" and z = 1 and R = 2 and Q = "1 / 10" and z' = 7] a b
  show ?thesis by simp
qed

subsection \<open>The Kalman step: the two off-diagonal entries of the updated covariance\<close>

text \<open>
  The source computes \<open>updated_covariance[1]\<close> as \<open>(A00 * ikh10 + A01) + K0 * R * K1\<close> and
  \<open>updated_covariance[2]\<close> as \<open>A10 * ikh00 + K1 * R * K0\<close>: two different expressions of the
  predicted covariance and the gain.
\<close>

lemma kalman_filter_off_diagonal:
  assumes "kalman_filter x z P R Q = Some (us, uc)"
  defines "Pp \<equiv> predicted_covariance P Q"
    and "K0 \<equiv> fst (kalman_gain P R Q)" and "K1 \<equiv> snd (kalman_gain P R Q)"
  shows "uc ! 1 = (1 - K0) * (Pp ! 0) * (- K1) + (1 - K0) * (Pp ! 1) + K0 * R * K1"
    and "uc ! 2 = ((- K1) * (Pp ! 0) + Pp ! 2) * (1 - K0) + K1 * R * K0"
  using assms(1) unfolding Pp_def K0_def K1_def
  by (auto simp: kalman_filter_def predicted_covariance_def kalman_gain_def Let_def
      split: if_splits)

lemma kalman_gain_divisor:
  "fst (kalman_gain P R Q) = predicted_covariance P Q ! 0 / innovation_covariance P R Q"
  by (simp add: kalman_gain_def predicted_covariance_def innovation_covariance_def Let_def)

section \<open>Properties of the binary64 arithmetic\<close>

text \<open>
  Rounding is decided by the binade of the magnitude: once an exponent \<open>e\<close> is known to be
  that of \<open>a\<close>, the rounded significand is \<open>round_half_even (a / pow2 e)\<close>.  Every finite
  double is the rounding of its own value.
\<close>

lemma pow2_pos: "0 < pow2 e"
  by (simp add: pow2_def)

lemma pow2_scale: "- 1074 \<le> e \<Longrightarrow> pow2 e * 2 ^ 1074 = 2 ^ nat (e + 1074)"
proof (cases "0 \<le> e")
  case True
  assume "- 1074 \<le> e"
  have "nat (e + 1074) = nat e + 1074" using True by simp
  then show ?thesis using True by (simp add: pow2_def power_add)
next
  case False
  assume a: "- 1074 \<le> e"
  have "nat (- e) \<le> 1074" using a False by simp
  then have "(2::real) ^ (1074 - nat (- e)) = 2 ^ 1074 / 2 ^ nat (- e)"
    by (simp add: power_diff)
  moreover have "nat (e + 1074) = 1074 - nat (- e)" using a False by simp
  ultimately show ?thesis using False by (simp add: pow2_def)
qed

lemma binade_exponent:
  assumes e: "- 1074 \<le> e" and hi: "a < 2 ^ 53 * pow2 e"
    and lo: "e = - 1074 \<or> 2 ^ 52 * pow2 e \<le> a"
  shows "max (bitlen \<lfloor>a * 2 ^ 1074\<rfloor> - 53) 0 - 1074 = e"
proof -
  define k where "k = nat (e + 1074)"
  define N where "N = \<lfloor>a * 2 ^ 1074\<rfloor>"
  have sc: "pow2 e * 2 ^ 1074 = 2 ^ k" using pow2_scale[OF e] by (simp add: k_def)
  have "a * 2 ^ 1074 < 2 ^ 53 * pow2 e * 2 ^ 1074" using hi by simp
  also have "\<dots> = 2 ^ (53 + k)" using sc by (simp add: power_add)
  finally have "a * 2 ^ 1074 < of_int (2 ^ (53 + k))" by simp
  then have "N < 2 ^ (53 + k)" unfolding N_def by (simp only: floor_less_iff)
  then have up: "bitlen N \<le> 53 + int k"
    by (simp add: bitlen_le_iff_power nat_add_distrib)
  show ?thesis
  proof (cases "2 ^ 52 * pow2 e \<le> a")
    case True
    then have "2 ^ 52 * pow2 e * 2 ^ 1074 \<le> a * 2 ^ 1074" by simp
    moreover have "2 ^ 52 * pow2 e * 2 ^ 1074 = (2::real) ^ (52 + k)" using sc by (simp add: power_add)
    ultimately have "of_int (2 ^ (52 + k)) \<le> a * 2 ^ 1074" by simp
    then have "2 ^ (52 + k) \<le> N" unfolding N_def by (simp only: le_floor_iff)
    then have "\<not> N < 2 ^ nat (52 + int k)" by (simp add: nat_add_distrib)
    then have "\<not> bitlen N \<le> 52 + int k" by (simp add: bitlen_le_iff_power)
    with up have "bitlen N = 53 + int k" by simp
    then show ?thesis using e by (simp add: N_def k_def)
  next
    case False
    with lo have e': "e = - 1074" by simp
    then have "k = 0" by (simp add: k_def)
    with up have "bitlen N \<le> 53" by simp
    then show ?thesis using e' by (simp add: N_def)
  qed
qed

lemma round_magnitude_binade:
  assumes "- 1074 \<le> e" and "a < 2 ^ 53 * pow2 e" and "e = - 1074 \<or> 2 ^ 52 * pow2 e \<le> a"
  shows "round_magnitude s a =
     (if 971 < e then Infinity s
      else if round_half_even (a / pow2 e) = 2 ^ 53
      then (if e = 971 then Infinity s else Finite s (2 ^ 52) (e + 1))
      else Finite s (round_half_even (a / pow2 e)) e)"
  unfolding round_magnitude_def binade_exponent[OF assms] Let_def ..

lemma round_half_even_of_nat: "round_half_even (of_nat m) = m"
  by (simp add: round_half_even_def)

lemma round_magnitude_exact:
  assumes "is_finite (Finite s m e)" and "m \<noteq> 0"
  shows "round_magnitude t (of_nat m * pow2 e) = Finite t m e"
proof -
  from assms have e: "- 1074 \<le> e" and e': "e \<le> 971" and m: "m < 2 ^ 53"
    and c: "2 ^ 52 \<le> m \<or> e = - 1074" by simp_all
  have hi: "of_nat m * pow2 e < 2 ^ 53 * pow2 e"
    using m pow2_pos[of e] by (simp add: of_nat_less_numeral_power_cancel_iff)
  have lo: "e = - 1074 \<or> 2 ^ 52 * pow2 e \<le> of_nat m * pow2 e"
    using c pow2_pos[of e] by (auto simp: numeral_power_le_of_nat_cancel_iff)
  have q: "of_nat m * pow2 e / pow2 e = of_nat m" using pow2_pos[of e] by simp
  show ?thesis
    using m e' by (simp add: round_magnitude_binade[OF e hi lo] q round_half_even_of_nat)
qed

subsection \<open>The error of one rounding\<close>

text \<open>
  The exponent that \<open>round_magnitude\<close> chooses is that of the binade of the magnitude, so a
  finite result is within half a unit in the last place of the exact value: the relative
  error is at most \<open>2\<^sup>-\<^sup>5\<^sup>3\<close> in the normal range and the absolute error at most \<open>2\<^sup>-\<^sup>1\<^sup>0\<^sup>7\<^sup>5\<close> in the
  subnormal range.  A sum or a product that is a number has operands that are numbers, and
  differs from the exact sum or product of their values by no more than that.
\<close>

lemma binade_exists:
  assumes a: "0 < a"
  defines "e \<equiv> max (bitlen \<lfloor>a * 2 ^ 1074\<rfloor> - 53) 0 - 1074"
  shows "- 1074 \<le> e \<and> a < 2 ^ 53 * pow2 e \<and> (e = - 1074 \<or> 2 ^ 52 * pow2 e \<le> a)"
proof -
  define T where "T = (2::real) ^ 1074"
  define N where "N = \<lfloor>a * T\<rfloor>"
  have T: "0 < T" by (simp only: T_def zero_less_power zero_less_numeral)
  have e_alt: "e = max (bitlen N - 53) 0 - 1074" by (simp only: e_def N_def T_def)
  have N0: "0 \<le> N" using a T by (simp add: N_def)
  have lo: "real_of_int N \<le> a * T" by (simp add: N_def)
  have hi: "a * T < real_of_int N + 1" by (simp add: N_def)
  have e: "- 1074 \<le> e" by (simp add: e_alt)
  show ?thesis
  proof (cases "bitlen N \<le> 53")
    case True
    then have e0: "e = - 1074" by (simp add: e_alt)
    have "nat (e + 1074) = 0" using e0 by simp
    then have sc: "pow2 e * T = 1" using pow2_scale[OF e] by (simp only: T_def power_0)
    from True have "N < 2 ^ 53" by (simp add: bitlen_le_iff_power)
    then have "N + 1 \<le> 2 ^ 53" by simp
    then have "real_of_int (N + 1) \<le> real_of_int (2 ^ 53)" by (simp only: of_int_le_iff)
    then have "real_of_int N + 1 \<le> 2 ^ 53" by simp
    with hi have "a * T < 2 ^ 53 * (pow2 e * T)" by (simp only: sc)
    then have "a < 2 ^ 53 * pow2 e" using T by simp
    with e0 show ?thesis by simp
  next
    case False
    then have b: "53 < bitlen N" by simp
    then have Npos: "0 < N" using bitlen_eq_zero_iff[of N] N0 by (cases "N = 0") auto
    define k where "k = nat (bitlen N - 53)"
    have ek: "e + 1074 = int k" using b by (simp add: e_alt k_def)
    have sc: "pow2 e * T = 2 ^ k" using pow2_scale[OF e] by (simp only: T_def ek nat_int)
    from bitlen_bounds[OF Npos] have l: "2 ^ nat (bitlen N - 1) \<le> N" and h: "N < 2 ^ nat (bitlen N)"
      by simp_all
    have n1: "nat (bitlen N - 1) = 52 + k" and n2: "nat (bitlen N) = 53 + k"
      using b by (simp_all add: k_def)
    from h have "N + 1 \<le> 2 ^ (53 + k)" by (simp add: n2)
    then have "real_of_int (N + 1) \<le> real_of_int (2 ^ (53 + k))" by (simp only: of_int_le_iff)
    then have "real_of_int N + 1 \<le> 2 ^ (53 + k)" by simp
    with hi have "a * T < 2 ^ (53 + k)" by linarith
    also have "(2::real) ^ (53 + k) = 2 ^ 53 * (pow2 e * T)" by (simp only: sc power_add)
    finally have A: "a < 2 ^ 53 * pow2 e" using T by simp
    from l have "real_of_int (2 ^ (52 + k)) \<le> real_of_int N" by (simp only: n1 of_int_le_iff)
    then have "(2::real) ^ (52 + k) \<le> real_of_int N" by simp
    with lo have "2 ^ (52 + k) \<le> a * T" by linarith
    moreover have "(2::real) ^ (52 + k) = 2 ^ 52 * (pow2 e * T)" by (simp only: sc power_add)
    ultimately have B: "2 ^ 52 * pow2 e \<le> a" using T by simp
    from e A B show ?thesis by simp
  qed
qed

lemma round_half_even_error:
  assumes "0 \<le> q"
  shows "\<bar>real (round_half_even q) - q\<bar> \<le> 1 / 2"
proof -
  have f0: "0 \<le> \<lfloor>q\<rfloor>" using assms by simp
  have "real_of_int \<lfloor>q\<rfloor> \<le> q" "q < real_of_int \<lfloor>q\<rfloor> + 1" by linarith+
  then show ?thesis using f0
    by (auto simp: round_half_even_def Let_def)
qed

lemma round_magnitude_error:
  assumes a: "0 < a" and r: "round_magnitude s a = Finite t m e"
  shows "t = s \<and> \<bar>real m * pow2 e - a\<bar> \<le> a / 2 ^ 53 + 1 / 2 ^ 1075"
proof -
  define e0 where "e0 = max (bitlen \<lfloor>a * 2 ^ 1074\<rfloor> - 53) 0 - 1074"
  define m0 where "m0 = round_half_even (a / pow2 e0)"
  from binade_exists[OF a] have e0: "- 1074 \<le> e0" and hi: "a < 2 ^ 53 * pow2 e0"
    and lo: "e0 = - 1074 \<or> 2 ^ 52 * pow2 e0 \<le> a" by (simp_all add: e0_def)
  have pp: "0 < pow2 e0" by (rule pow2_pos)
  have rm: "round_magnitude s a =
     (if 971 < e0 then Infinity s
      else if m0 = 2 ^ 53 then (if e0 = 971 then Infinity s else Finite s (2 ^ 52) (e0 + 1))
      else Finite s m0 e0)"
    unfolding round_magnitude_def Let_def e0_def m0_def ..
  have step: "pow2 (e0 + 1) = 2 * pow2 e0"
  proof (cases "0 \<le> e0")
    case True
    then have "nat (e0 + 1) = Suc (nat e0)" by simp
    with True show ?thesis by (simp add: pow2_def)
  next
    case False
    show ?thesis
    proof (cases "e0 = - 1")
      case True then show ?thesis by (simp add: pow2_def)
    next
      case F: False
      with False have "nat (- e0) = Suc (nat (- (e0 + 1)))" by simp
      with False F show ?thesis by (simp add: pow2_def)
    qed
  qed
  have val: "t = s \<and> real m * pow2 e = real m0 * pow2 e0"
    using r rm step by (auto split: if_splits)
  have "\<bar>real m0 - a / pow2 e0\<bar> \<le> 1 / 2"
    unfolding m0_def using a pp by (intro round_half_even_error) simp
  then have "\<bar>real m0 - a / pow2 e0\<bar> * pow2 e0 \<le> 1 / 2 * pow2 e0"
    using pp by (intro mult_right_mono) simp_all
  moreover have "\<bar>real m0 - a / pow2 e0\<bar> * pow2 e0 = \<bar>real m0 * pow2 e0 - a\<bar>"
    using pp by (simp add: abs_mult[symmetric] field_simps) 
  ultimately have err: "\<bar>real m0 * pow2 e0 - a\<bar> \<le> pow2 e0 / 2" by simp
  have "pow2 e0 / 2 \<le> a / 2 ^ 53 + 1 / 2 ^ 1075"
  proof (cases "e0 = - 1074")
    case True
    then have "pow2 e0 / 2 = 1 / 2 ^ 1075" by (simp add: pow2_def)
    with a show ?thesis by simp
  next
    case False
    with lo have "2 ^ 52 * pow2 e0 \<le> a" by simp
    then have "pow2 e0 / 2 \<le> a / 2 ^ 53" by (simp add: field_simps)
    then show ?thesis by simp
  qed
  with err val show ?thesis by simp
qed

lemma round_magnitude_valof:
  assumes r: "r \<noteq> 0" and f: "round_magnitude (r < 0) \<bar>r\<bar> = Finite t m e"
  shows "\<bar>valof (Finite t m e) - r\<bar> \<le> \<bar>r\<bar> * (1 / 2 ^ 53) + 1 / 2 ^ 1075"
proof -
  from r have "0 < \<bar>r\<bar>" by simp
  from round_magnitude_error[OF this f]
  have t: "t = (r < 0)" and b: "\<bar>real m * pow2 e - \<bar>r\<bar>\<bar> \<le> \<bar>r\<bar> / 2 ^ 53 + 1 / 2 ^ 1075"
    by simp_all
  have "\<bar>valof (Finite t m e) - r\<bar> = \<bar>real m * pow2 e - \<bar>r\<bar>\<bar>"
    by (cases "r < 0") (simp_all add: t)
  moreover have "\<bar>r\<bar> / 2 ^ 53 = \<bar>r\<bar> * (1 / 2 ^ 53)" by simp
  ultimately show ?thesis using b by (simp only:)
qed

lemma is_number_times:
  assumes "is_number (x * y)"
  shows "is_number x \<and> is_number y
    \<and> \<bar>valof (x * y) - valof x * valof y\<bar> \<le> \<bar>valof x * valof y\<bar> * (1 / 2 ^ 53) + 1 / 2 ^ 1075"
proof (cases x)
  case (Finite s m e)
  note x = this
  show ?thesis
  proof (cases y)
    case (Finite t n f)
    note y = this
    have h: "(0::real) \<le> 1 / 2 ^ 1075" by (simp only: zero_le_divide_1_iff zero_le_power zero_le_numeral)
    show ?thesis
    proof (cases "m = 0 \<or> n = 0")
      case True
      then have v: "valof x * valof y = 0" "valof (x * y) = 0"
        by (auto simp: x y times_double_def)
      show ?thesis using h by (simp only: v) (simp add: x y)
    next
      case False
      define r where "r = valof x * valof y"
      have pe: "0 < pow2 e" "0 < pow2 f" by (rule pow2_pos)+
      have mn: "0 < real m * pow2 e * (real n * pow2 f)" using False pe by simp
      have r0: "r \<noteq> 0" using False pe by (simp add: r_def x y)
      define A where "A = real m * pow2 e * (real n * pow2 f)"
      have rA: "r = (if s \<noteq> t then - A else A)"
        by (cases s; cases t) (simp_all add: r_def x y A_def)
      have A: "0 < A" using mn by (simp only: A_def)
      have sg: "(r < 0) = (s \<noteq> t)" using A by (simp add: rA)
      have ab: "\<bar>r\<bar> = real m * pow2 e * (real n * pow2 f)"
        using A unfolding A_def[symmetric] by (simp add: rA)
      have xy: "x * y = round_magnitude (r < 0) \<bar>r\<bar>"
        using False by (simp only: sg ab) (simp add: x y times_double_def)
      from assms obtain t' m' e' where fin: "x * y = Finite t' m' e'" by (cases "x * y") simp_all
      from round_magnitude_valof[OF r0 fin[unfolded xy]]
      show ?thesis unfolding fin[symmetric] r_def by (simp add: x y)
    qed
  next
    case (Infinity t) with x assms show ?thesis by (simp add: times_double_def split: if_splits)
  next
    case NaN with x assms show ?thesis by (simp add: times_double_def)
  qed
next
  case (Infinity s) with assms show ?thesis by (cases y) (simp_all add: times_double_def split: if_splits)
next
  case NaN with assms show ?thesis by (simp add: times_double_def)
qed

lemma is_number_plus:
  assumes "is_number (x + y)"
  shows "is_number x \<and> is_number y
    \<and> \<bar>valof (x + y) - (valof x + valof y)\<bar> \<le> \<bar>valof x + valof y\<bar> * (1 / 2 ^ 53) + 1 / 2 ^ 1075"
proof (cases x)
  case (Finite s m e)
  note x = this
  show ?thesis
  proof (cases y)
    case (Finite t n f)
    note y = this
    have h: "(0::real) \<le> 1 / 2 ^ 1075" by (simp only: zero_le_divide_1_iff zero_le_power zero_le_numeral)
    define r where "r = valof x + valof y"
    show ?thesis
    proof (cases "r = 0")
      case True
      then have v: "valof x + valof y = 0" "valof (x + y) = 0"
        by (simp_all add: r_def x y plus_double_def Let_def)
      show ?thesis using h by (simp only: v) (simp add: x y)
    next
      case False
      have xy: "x + y = round_magnitude (r < 0) \<bar>r\<bar>"
        using False by (simp add: x y plus_double_def Let_def round_double_def r_def)
      from assms obtain t' m' e' where fin: "x + y = Finite t' m' e'" by (cases "x + y") simp_all
      from round_magnitude_valof[OF False fin[unfolded xy]]
      show ?thesis unfolding fin[symmetric] r_def by (simp add: x y)
    qed
  next
    case (Infinity t) with x assms show ?thesis by (simp add: plus_double_def)
  next
    case NaN with x assms show ?thesis by (simp add: plus_double_def)
  qed
next
  case (Infinity s) with assms show ?thesis by (cases y) (simp_all add: plus_double_def split: if_splits)
next
  case NaN with assms show ?thesis by (simp add: plus_double_def)
qed

lemma is_number_uminus:
  "is_number (- x) \<Longrightarrow> is_number x \<and> valof (- x) = - valof x"
  by (cases x) (simp_all add: uminus_double_def)

lemma is_number_minus:
  "is_number (x - y) \<Longrightarrow> is_number x \<and> is_number y"
proof -
  assume a: "is_number (x - y)"
  then have "is_number (x + (- y))" by (simp add: minus_double_def plus_double_def uminus_double_def)
  from is_number_plus[OF this] is_number_uminus[of y] show ?thesis by simp
qed

lemma is_number_divide:
  "is_number (x / y) \<Longrightarrow> \<not> is_zero y"
  by (cases x; cases y) (simp_all add: divide_double_def split: if_splits)

lemma is_finite_number: "is_finite x \<Longrightarrow> is_number x"
  by (cases x) simp_all

lemma double_eq_plus: "double_eq x y \<Longrightarrow> valof (x + z) = valof (y + z)"
  by (cases x; cases y; cases z) (simp_all add: plus_double_def Let_def)

section \<open>The scenarios, evaluated in binary64\<close>

text \<open>
  A concrete computation is evaluated by the simplifier: every rounding is decided by
  \<open>round_magnitude_binade\<close> at the exponent of the result's binade, so that only comparisons
  and divisions of numerals remain.  The lemma collections below list the definitions of the
  operators and the binades that occur.
\<close>

lemmas double_ops = plus_double_def minus_double_def times_double_def divide_double_def
  uminus_double_def one_double_def zero_double_def round_double_def pow2_def round_half_even_def

lemmas binades_near_one =
  round_magnitude_binade[where e = "- 56"] round_magnitude_binade[where e = "- 55"]
  round_magnitude_binade[where e = "- 54"] round_magnitude_binade[where e = "- 53"]
  round_magnitude_binade[where e = "- 52"] round_magnitude_binade[where e = "- 51"]
  round_magnitude_binade[where e = "- 50"] round_magnitude_binade[where e = "- 49"]
  round_magnitude_binade[where e = "- 48"]

subsection \<open>The PID scenario\<close>

text \<open>
  \<^bold>\<open>Claim C6.\<close>  With \<open>error = 2\<close>, \<open>integral = 0\<close>, \<open>prev_error = 1\<close>, \<open>kp = 1\<close>, \<open>ki = 0.5\<close>,
  \<open>kd = 0.1\<close> and \<open>dt = 1\<close> (each literal read as the nearest double), \<open>pid_controller\<close> returns
  \<open>new_integral = 2\<close>, \<open>new_prev_error = 2\<close> and \<open>output = 3.1\<close>: the sum
  \<open>(1 * 2 + 0.5 * 2) + 0.1 * 1\<close>, rounded after each operation, is the double nearest to
  \<open>3.1\<close>.
\<close>

theorem pid_scenario:
  "pid_controller (round_double 2) (round_double 0) (round_double 1) (round_double 1)
     (round_double (1 / 2)) (round_double (1 / 10)) (round_double 1)
   = \<lparr>pid_output = round_double (31 / 10), new_integral = round_double 2,
      new_prev_error = round_double 2\<rparr>"
  by (simp add: pid_controller_def Let_def double_ops
     round_magnitude_binade[where e = "- 56"] round_magnitude_binade[where e = "- 53"]
     round_magnitude_binade[where e = "- 52"] round_magnitude_binade[where e = "- 51"])

subsection \<open>The Kalman scenario\<close>

text \<open>
  The whole step at \<open>state = [0, 0]\<close>, \<open>measurement = 1\<close>, \<open>state_covariance = [10, 0, 0, 10]\<close>,
  \<open>measurement_noise = 2\<close>, \<open>process_noise = 0.1\<close>.  In decimals the result is
  \<open>updated_state = [0.9095022624434389, 0.4524886877828054]\<close> and
  \<open>updated_covariance = [1.8190045248868778, 0.9049773755656108, 0.9049773755656108,
  5.575113122171945]\<close>.  The predicted variance is \<open>(10 + 0) + (0 + 10) + 0.1 = 20.1\<close>, so the
  innovation covariance is \<open>S = 22.1\<close> and the gain is \<open>K0 = 20.1 / 22.1\<close>.
\<close>

lemma kalman_scenario_run:
  "kalman_filter [round_double 0, round_double 0] (round_double 1)
     [round_double 10, round_double 0, round_double 0, round_double 10]
     (round_double 2) (round_double (1 / 10))
   = Some ([Finite False 8192068100465789 (- 53), Finite False 8151311542752028 (- 54)],
           [Finite False 8192068100465789 (- 52), Finite False 8151311542752028 (- 53),
            Finite False 8151311542752028 (- 53), Finite False 6277019344890484 (- 50)])"
  by (simp add: kalman_filter_def Let_def double_ops binades_near_one)

lemma kalman_scenario_intermediate:
  "innovation_covariance [round_double 10, round_double 0, round_double 0, round_double 10]
     (round_double 2) (round_double (1 / 10)) = round_double (221 / 10)"
  "round_double (201 / 10) / round_double (221 / 10) = Finite False 8192068100465789 (- 53)"
  "round_double 1 - (round_double 0 + round_double 0) = round_double 1"
  by (simp_all add: innovation_covariance_def double_ops binades_near_one)

text \<open>
  Against claim C2 as stated: at these inputs \<open>updated_state[0]\<close> is \<open>0.9095022624434389\<close>,
  which is not within \<open>10\<^sup>-\<^sup>3\<close> of \<open>0.8398\<close>, and \<open>S\<close> is not \<open>10.1\<close>.
\<close>

theorem kalman_scenario_counterexample:
  "kalman_filter [round_double 0, round_double 0] (round_double 1)
     [round_double 10, round_double 0, round_double 0, round_double 10]
     (round_double 2) (round_double (1 / 10))
   = Some ([Finite False 8192068100465789 (- 53), Finite False 8151311542752028 (- 54)],
           [Finite False 8192068100465789 (- 52), Finite False 8151311542752028 (- 53),
            Finite False 8151311542752028 (- 53), Finite False 6277019344890484 (- 50)])
   \<and> \<not> \<bar>valof (Finite False 8192068100465789 (- 53)) - 8398 / 10000\<bar> \<le> 1 / 1000
   \<and> innovation_covariance [round_double 10, round_double 0, round_double 0, round_double 10]
        (round_double 2) (round_double (1 / 10)) \<noteq> round_double (101 / 10)"
proof -
  have a: "\<not> \<bar>valof (Finite False 8192068100465789 (- 53)) - 8398 / 10000\<bar> \<le> 1 / 1000"
    by (simp add: pow2_def)
  have b: "round_double (221 / 10) \<noteq> round_double (101 / 10)"
    by (simp add: double_ops binades_near_one)
  from a b show ?thesis
    by (simp only: kalman_scenario_run kalman_scenario_intermediate simp_thms)
qed

text \<open>
  \<^bold>\<open>Claim C2\<close>, as the code has it.  At these inputs \<open>kalman_filter\<close> yields
  \<open>updated_state[0] = 0.9095022624434389\<close> (the double \<open>8192068100465789 * 2\<^sup>-\<^sup>5\<^sup>3\<close>), which is
  within \<open>10\<^sup>-\<^sup>3\<close> of \<open>0.9095\<close> and within \<open>2\<^sup>-\<^sup>5\<^sup>4\<close> of the exact-arithmetic value \<open>201 / 221\<close>;
  the intermediate values are \<open>S = 22.1\<close>, \<open>K0 = 20.1 / 22.1 \<approx> 0.9095\<close> and \<open>y = 1\<close>.
\<close>

theorem kalman_scenario:
  "kalman_filter [round_double 0, round_double 0] (round_double 1)
     [round_double 10, round_double 0, round_double 0, round_double 10]
     (round_double 2) (round_double (1 / 10))
   = Some ([Finite False 8192068100465789 (- 53), Finite False 8151311542752028 (- 54)],
           [Finite False 8192068100465789 (- 52), Finite False 8151311542752028 (- 53),
            Finite False 8151311542752028 (- 53), Finite False 6277019344890484 (- 50)])
   \<and> \<bar>valof (Finite False 8192068100465789 (- 53)) - 9095 / 10000\<bar> \<le> 1 / 1000
   \<and> \<bar>valof (Finite False 8192068100465789 (- 53)) - 201 / 221\<bar> \<le> 1 / 2 ^ 54
   \<and> innovation_covariance [round_double 10, round_double 0, round_double 0, round_double 10]
        (round_double 2) (round_double (1 / 10)) = round_double (221 / 10)
   \<and> round_double (201 / 10) / round_double (221 / 10) = Finite False 8192068100465789 (- 53)
   \<and> round_double 1 - (round_double 0 + round_double 0) = round_double 1"
proof -
  have a: "\<bar>valof (Finite False 8192068100465789 (- 53)) - 9095 / 10000\<bar> \<le> 1 / 1000"
    by (simp add: pow2_def)
  have b: "\<bar>valof (Finite False 8192068100465789 (- 53)) - 201 / 221\<bar> \<le> 1 / 2 ^ 54"
    by (simp add: pow2_def)
  from a b show ?thesis
    by (simp only: kalman_scenario_run kalman_scenario_intermediate simp_thms)
qed

subsection \<open>Symmetry of the updated covariance\<close>

text \<open>
  Against claim C1 as stated, twice.  First, in binary64, at the symmetric covariance
  \<open>[1, 0, 0, 3]\<close> with \<open>R = 2\<close> and \<open>Q = 0\<close> (so \<open>S = 6\<close>): the two off-diagonal entries are
  computed by different expressions and round differently, \<open>updated_covariance[1] =
  0.9999999999999999\<close> and \<open>updated_covariance[2] = 1\<close>.  Second, in exact arithmetic, at the
  asymmetric covariance \<open>[1, 1, 0, 1]\<close> with \<open>R = 1\<close> and \<open>Q = 0\<close> (so \<open>S = 4\<close>): the result
  is \<open>[3/4, 1/2, 1/4, 1/2]\<close>.  (All values of the second computation are dyadic fractions,
  so it is the same in binary64.)
\<close>

lemma kalman_symmetric_input_run:
  "kalman_filter [round_double 0, round_double 0] (round_double 1)
     [round_double 1, round_double 0, round_double 0, round_double 3]
     (round_double 2) (round_double 0)
   = Some ([Finite False 6004799503160661 (- 53), Finite False 4503599627370496 (- 53)],
           [Finite False 6004799503160662 (- 52), Finite False 9007199254740991 (- 53),
            Finite False 4503599627370496 (- 52), Finite False 6755399441055744 (- 52)])"
  by (simp add: kalman_filter_def Let_def double_ops
      round_magnitude_binade[where e = "- 54"] round_magnitude_binade[where e = "- 53"]
      round_magnitude_binade[where e = "- 52"] round_magnitude_binade[where e = "- 51"]
      round_magnitude_binade[where e = "- 50"])

lemma kalman_symmetric_input_S:
  "innovation_covariance [round_double 1, round_double 0, round_double 0, round_double 3]
     (round_double 2) (round_double 0) = round_double 6"
  by (simp add: innovation_covariance_def double_ops
      round_magnitude_binade[where e = "- 52"] round_magnitude_binade[where e = "- 51"]
      round_magnitude_binade[where e = "- 50"])

theorem kalman_symmetry_counterexample:
  "kalman_filter [round_double 0, round_double 0] (round_double 1)
     [round_double 1, round_double 0, round_double 0, round_double 3]
     (round_double 2) (round_double 0)
   = Some ([Finite False 6004799503160661 (- 53), Finite False 4503599627370496 (- 53)],
           [Finite False 6004799503160662 (- 52), Finite False 9007199254740991 (- 53),
            Finite False 4503599627370496 (- 52), Finite False 6755399441055744 (- 52)])
   \<and> \<not> double_eq (Finite False 9007199254740991 (- 53)) (Finite False 4503599627370496 (- 52))
   \<and> \<not> double_eq (innovation_covariance
            [round_double 1, round_double 0, round_double 0, round_double 3]
            (round_double 2) (round_double 0)) 0
   \<and> kalman_filter [0, 0 :: real] 1 [1, 1, 0, 1] 1 0
       = Some ([3 / 4, 1 / 4], [3 / 4, 1 / 2, 1 / 4, 1 / 2])
   \<and> innovation_covariance [1, 1, 0, 1 :: real] 1 0 \<noteq> 0"
proof -
  have a: "\<not> double_eq (Finite False 9007199254740991 (- 53)) (Finite False 4503599627370496 (- 52))"
    by (simp add: pow2_def)
  have b: "\<not> double_eq (round_double 6) 0"
    by (simp add: double_ops round_magnitude_binade[where e = "- 50"])
  have c: "kalman_filter [0, 0 :: real] 1 [1, 1, 0, 1] 1 0
       = Some ([3 / 4, 1 / 4], [3 / 4, 1 / 2, 1 / 4, 1 / 2])"
    by (simp add: kalman_filter_def Let_def)
  have d: "innovation_covariance [1, 1, 0, 1 :: real] 1 0 \<noteq> 0"
    by (simp add: innovation_covariance_def)
  from a b c d show ?thesis
    by (simp only: kalman_symmetric_input_run kalman_symmetric_input_S simp_thms)
qed

text \<open>
  How the rounding errors add up, over the reals.  A rounded product or sum \<open>t\<close> of
  approximate operands \<open>xh\<close>, \<open>yh\<close> is compared with the exact product or sum of the exact
  operands \<open>x\<close>, \<open>y\<close>; \<open>u\<close> is the relative and \<open>h\<close> the absolute error of one rounding.
  In \<open>joseph_error_real\<close> the values \<open>t1, \<dots>, t6, P12\<close> are those of the first off-diagonal
  expression of the source and \<open>s1, \<dots>, s6, P21\<close> those of the second; the exact values of
  the two expressions are equal, so the distance between \<open>P12\<close> and \<open>P21\<close> is at most the sum
  of the two accumulated errors.
\<close>

lemma rounded_product_error:
  fixes x xh y t E X u h :: real
  assumes e: "\<bar>xh - x\<bar> \<le> E" and x: "\<bar>x\<bar> \<le> X"
    and t: "\<bar>t - xh * y\<bar> \<le> \<bar>xh * y\<bar> * u + h" and u: "0 \<le> u"
  shows "\<bar>t - x * y\<bar> \<le> (E * (1 + u) + X * u) * \<bar>y\<bar> + h"
proof -
  have "\<bar>xh\<bar> \<le> X + E" using e x by linarith
  then have "\<bar>xh\<bar> * \<bar>y\<bar> \<le> (X + E) * \<bar>y\<bar>" by (intro mult_right_mono) simp_all
  then have "\<bar>xh * y\<bar> * u \<le> (X + E) * \<bar>y\<bar> * u"
    using u by (simp add: abs_mult mult_right_mono)
  with t have a: "\<bar>t - xh * y\<bar> \<le> (X + E) * \<bar>y\<bar> * u + h" by linarith
  have "\<bar>xh - x\<bar> * \<bar>y\<bar> \<le> E * \<bar>y\<bar>" using e by (intro mult_right_mono) simp_all
  then have b: "\<bar>xh * y - x * y\<bar> \<le> E * \<bar>y\<bar>"
    by (simp add: abs_mult[symmetric] left_diff_distrib)
  have "\<bar>t - x * y\<bar> \<le> \<bar>t - xh * y\<bar> + \<bar>xh * y - x * y\<bar>" by linarith
  with a b have "\<bar>t - x * y\<bar> \<le> (X + E) * \<bar>y\<bar> * u + h + E * \<bar>y\<bar>" by linarith
  then show ?thesis by (simp add: algebra_simps)
qed

lemma rounded_sum_error:
  fixes x xh y yh t E F X Y u h :: real
  assumes e: "\<bar>xh - x\<bar> \<le> E" and f: "\<bar>yh - y\<bar> \<le> F" and x: "\<bar>x\<bar> \<le> X" and y: "\<bar>y\<bar> \<le> Y"
    and t: "\<bar>t - (xh + yh)\<bar> \<le> \<bar>xh + yh\<bar> * u + h" and u: "0 \<le> u"
  shows "\<bar>t - (x + y)\<bar> \<le> (E + F) * (1 + u) + (X + Y) * u + h"
proof -
  have "\<bar>xh + yh\<bar> \<le> X + Y + E + F" using e f x y by linarith
  then have "\<bar>xh + yh\<bar> * u \<le> (X + Y + E + F) * u" using u by (intro mult_right_mono)
  with t have "\<bar>t - (xh + yh)\<bar> \<le> (X + Y + E + F) * u + h" by linarith
  moreover have "\<bar>t - (x + y)\<bar> \<le> \<bar>t - (xh + yh)\<bar> + \<bar>xh - x\<bar> + \<bar>yh - y\<bar>" by linarith
  ultimately have "\<bar>t - (x + y)\<bar> \<le> (X + Y + E + F) * u + h + E + F" using e f by linarith
  then show ?thesis by (simp add: algebra_simps)
qed

lemma joseph_error_real:
  fixes a b p q r k0 k1 h :: real
  defines "u \<equiv> 1 / 2 ^ 53"
  assumes H1: "\<bar>t1 - a * p\<bar> \<le> \<bar>a * p\<bar> * u + h"
    and H2: "\<bar>t2 - t1 * b\<bar> \<le> \<bar>t1 * b\<bar> * u + h"
    and H3: "\<bar>t3 - a * q\<bar> \<le> \<bar>a * q\<bar> * u + h"
    and H4: "\<bar>t4 - (t2 + t3)\<bar> \<le> \<bar>t2 + t3\<bar> * u + h"
    and H5: "\<bar>t5 - k0 * r\<bar> \<le> \<bar>k0 * r\<bar> * u + h"
    and H6: "\<bar>t6 - t5 * k1\<bar> \<le> \<bar>t5 * k1\<bar> * u + h"
    and H7: "\<bar>P12 - (t4 + t6)\<bar> \<le> \<bar>t4 + t6\<bar> * u + h"
    and G1: "\<bar>s1 - b * p\<bar> \<le> \<bar>b * p\<bar> * u + h"
    and G2: "\<bar>s2 - (s1 + q)\<bar> \<le> \<bar>s1 + q\<bar> * u + h"
    and G3: "\<bar>s3 - s2 * a\<bar> \<le> \<bar>s2 * a\<bar> * u + h"
    and G5: "\<bar>s5 - k1 * r\<bar> \<le> \<bar>k1 * r\<bar> * u + h"
    and G6: "\<bar>s6 - s5 * k0\<bar> \<le> \<bar>s5 * k0\<bar> * u + h"
    and G7: "\<bar>P21 - (s3 + s6)\<bar> \<le> \<bar>s3 + s6\<bar> * u + h"
    and b: "b = - k1" and h: "0 \<le> h"
  shows "\<bar>P12 - P21\<bar> \<le> (\<bar>a\<bar> * \<bar>p\<bar> * \<bar>k1\<bar> + \<bar>a\<bar> * \<bar>q\<bar> + \<bar>k0\<bar> * \<bar>r\<bar> * \<bar>k1\<bar>) / 2 ^ 49
           + 16 * h * (1 + \<bar>a\<bar> + \<bar>k0\<bar> + \<bar>k1\<bar>)"
proof -
  define w where "w = 1 + u"
  define AP where "AP = \<bar>a\<bar> * \<bar>p\<bar>"
  define BP where "BP = \<bar>k1\<bar> * \<bar>p\<bar>"
  define KR where "KR = \<bar>k0\<bar> * \<bar>r\<bar>"
  define BR where "BR = \<bar>k1\<bar> * \<bar>r\<bar>"
  define Qm where "Qm = \<bar>q\<bar>"
  define X1 where "X1 = \<bar>a\<bar> * \<bar>p\<bar> * \<bar>k1\<bar>"
  define X2 where "X2 = \<bar>a\<bar> * \<bar>q\<bar>"
  define X3 where "X3 = \<bar>k0\<bar> * \<bar>r\<bar> * \<bar>k1\<bar>"
  define hA where "hA = h * \<bar>a\<bar>"
  define hB where "hB = h * \<bar>k1\<bar>"
  define hK where "hK = h * \<bar>k0\<bar>"
  have nn: "0 \<le> X1" "0 \<le> X2" "0 \<le> X3" "0 \<le> hA" "0 \<le> hB" "0 \<le> hK"
    using h by (simp_all add: X1_def X2_def X3_def hA_def hB_def hK_def)
  have u0: "0 \<le> u" by (simp add: u_def)
  have bB: "\<bar>b\<bar> = \<bar>k1\<bar>" by (simp add: b)
  have D1: "\<bar>t1 - a * p\<bar> \<le> AP * u + h" using H1 by (simp add: abs_mult AP_def)
  have "\<bar>t2 - a * p * b\<bar> \<le> ((AP * u + h) * (1 + u) + AP * u) * \<bar>b\<bar> + h"
    by (rule rounded_product_error[OF D1 _ H2 u0]) (simp add: abs_mult AP_def)
  also have "\<dots> = X1 * (u * w + u) + hB * w + h"
    by (simp add: bB AP_def X1_def hB_def w_def algebra_simps)
  finally have D2: "\<bar>t2 - a * p * b\<bar> \<le> X1 * (u * w + u) + hB * w + h" .
  have D3: "\<bar>t3 - a * q\<bar> \<le> X2 * u + h" using H3 by (simp add: abs_mult X2_def)
  have "\<bar>t4 - (a * p * b + a * q)\<bar> \<le>
      ((X1 * (u * w + u) + hB * w + h) + (X2 * u + h)) * (1 + u) + (X1 + X2) * u + h"
    by (rule rounded_sum_error[OF D2 D3 _ _ H4 u0]) (simp_all add: abs_mult X1_def X2_def bB)
  also have "\<dots> = X1 * (u * w * w + u * w + u) + X2 * (u * w + u) + hB * (w * w) + h * (2 * w + 1)"
    by (simp add: w_def algebra_simps)
  finally have D4: "\<bar>t4 - (a * p * b + a * q)\<bar> \<le>
      X1 * (u * w * w + u * w + u) + X2 * (u * w + u) + hB * (w * w) + h * (2 * w + 1)" .
  have D5: "\<bar>t5 - k0 * r\<bar> \<le> KR * u + h" using H5 by (simp add: abs_mult KR_def)
  have "\<bar>t6 - k0 * r * k1\<bar> \<le> ((KR * u + h) * (1 + u) + KR * u) * \<bar>k1\<bar> + h"
    by (rule rounded_product_error[OF D5 _ H6 u0]) (simp add: abs_mult KR_def)
  also have "\<dots> = X3 * (u * w + u) + hB * w + h"
    by (simp add: KR_def X3_def hB_def w_def algebra_simps)
  finally have D6: "\<bar>t6 - k0 * r * k1\<bar> \<le> X3 * (u * w + u) + hB * w + h" .
  have m4: "\<bar>a * p * b + a * q\<bar> \<le> X1 + X2"
    unfolding X1_def X2_def bB[symmetric] by (metis abs_mult abs_triangle_ineq)
  have "\<bar>P12 - ((a * p * b + a * q) + k0 * r * k1)\<bar> \<le>
      ((X1 * (u * w * w + u * w + u) + X2 * (u * w + u) + hB * (w * w) + h * (2 * w + 1))
        + (X3 * (u * w + u) + hB * w + h)) * (1 + u) + ((X1 + X2) + X3) * u + h"
    by (rule rounded_sum_error[OF D4 D6 m4 _ H7 u0]) (simp add: abs_mult X3_def)
  also have "\<dots> = X1 * (u * w * w * w + u * w * w + u * w + u) + X2 * (u * w * w + u * w + u)
      + X3 * (u * w * w + u * w + u) + hB * (w * w * w + w * w) + h * (2 * w * w + 2 * w + 1)"
    by (simp add: w_def algebra_simps)
  finally have D7: "\<bar>P12 - ((a * p * b + a * q) + k0 * r * k1)\<bar> \<le>
      X1 * (u * w * w * w + u * w * w + u * w + u) + X2 * (u * w * w + u * w + u)
      + X3 * (u * w * w + u * w + u) + hB * (w * w * w + w * w) + h * (2 * w * w + 2 * w + 1)" .
  have C1: "\<bar>s1 - b * p\<bar> \<le> BP * u + h" using G1 by (simp add: abs_mult BP_def bB)
  have "\<bar>s2 - (b * p + q)\<bar> \<le> ((BP * u + h) + 0) * (1 + u) + (BP + Qm) * u + h"
    by (rule rounded_sum_error[OF C1 _ _ _ G2 u0]) (simp_all add: abs_mult BP_def Qm_def bB)
  also have "\<dots> = BP * (u * w + u) + Qm * u + h * (w + 1)"
    by (simp add: w_def algebra_simps)
  finally have C2: "\<bar>s2 - (b * p + q)\<bar> \<le> BP * (u * w + u) + Qm * u + h * (w + 1)" .
  have m2: "\<bar>b * p + q\<bar> \<le> BP + Qm"
    unfolding BP_def Qm_def bB[symmetric] by (metis abs_mult abs_triangle_ineq)
  have "\<bar>s3 - (b * p + q) * a\<bar> \<le>
      ((BP * (u * w + u) + Qm * u + h * (w + 1)) * (1 + u) + (BP + Qm) * u) * \<bar>a\<bar> + h"
    by (rule rounded_product_error[OF C2 m2 G3 u0])
  also have "\<dots> = X1 * (u * w * w + u * w + u) + X2 * (u * w + u) + hA * (w * w + w) + h"
    by (simp add: BP_def Qm_def X1_def X2_def hA_def w_def algebra_simps)
  finally have C3: "\<bar>s3 - (b * p + q) * a\<bar> \<le>
      X1 * (u * w * w + u * w + u) + X2 * (u * w + u) + hA * (w * w + w) + h" .
  have C5: "\<bar>s5 - k1 * r\<bar> \<le> BR * u + h" using G5 by (simp add: abs_mult BR_def)
  have "\<bar>s6 - k1 * r * k0\<bar> \<le> ((BR * u + h) * (1 + u) + BR * u) * \<bar>k0\<bar> + h"
    by (rule rounded_product_error[OF C5 _ G6 u0]) (simp add: abs_mult BR_def)
  also have "\<dots> = X3 * (u * w + u) + hK * w + h"
    by (simp add: BR_def X3_def hK_def w_def algebra_simps)
  finally have C6: "\<bar>s6 - k1 * r * k0\<bar> \<le> X3 * (u * w + u) + hK * w + h" .
  have m3: "\<bar>(b * p + q) * a\<bar> \<le> X1 + X2"
  proof -
    have "\<bar>b * p + q\<bar> * \<bar>a\<bar> \<le> (BP + Qm) * \<bar>a\<bar>" using m2 by (intro mult_right_mono) simp_all
    also have "\<dots> = X1 + X2" by (simp add: BP_def Qm_def X1_def X2_def algebra_simps)
    finally show ?thesis by (simp only: abs_mult)
  qed
  have "\<bar>P21 - ((b * p + q) * a + k1 * r * k0)\<bar> \<le>
      ((X1 * (u * w * w + u * w + u) + X2 * (u * w + u) + hA * (w * w + w) + h)
        + (X3 * (u * w + u) + hK * w + h)) * (1 + u) + ((X1 + X2) + X3) * u + h"
    by (rule rounded_sum_error[OF C3 C6 m3 _ G7 u0]) (simp add: abs_mult X3_def)
  also have "\<dots> = X1 * (u * w * w * w + u * w * w + u * w + u) + X2 * (u * w * w + u * w + u)
      + X3 * (u * w * w + u * w + u) + hA * (w * w * w + w * w) + hK * (w * w) + h * (2 * w + 1)"
    by (simp add: w_def algebra_simps)
  finally have C7: "\<bar>P21 - ((b * p + q) * a + k1 * r * k0)\<bar> \<le>
      X1 * (u * w * w * w + u * w * w + u * w + u) + X2 * (u * w * w + u * w + u)
      + X3 * (u * w * w + u * w + u) + hA * (w * w * w + w * w) + hK * (w * w) + h * (2 * w + 1)" .
  have same: "(a * p * b + a * q) + k0 * r * k1 = (b * p + q) * a + k1 * r * k0"
    by (simp add: algebra_simps)
  have tri: "\<bar>P12 - P21\<bar> \<le> \<bar>P12 - ((a * p * b + a * q) + k0 * r * k1)\<bar>
       + \<bar>P21 - ((b * p + q) * a + k1 * r * k0)\<bar>"
    unfolding same by linarith
  have w: "0 \<le> w" "w \<le> 11 / 10" by (simp_all add: w_def u_def)
  have ww: "w * w \<le> 2" using mult_mono[of w "11 / 10" w "11 / 10"] w by simp
  have w0: "0 \<le> w * w" using w by simp
  have www: "w * w * w \<le> 3" using mult_mono[of "w * w" 2 w "11 / 10"] w ww w0 by simp
  have uw: "u * w \<le> u * (11 / 10)" using w u0 by (intro mult_left_mono)
  have uww: "u * w * w \<le> u * 2" using mult_left_mono[OF ww u0] by (simp add: mult.assoc)
  have uwww: "u * w * w * w \<le> u * 3" using mult_left_mono[OF www u0] by (simp add: mult.assoc)
  have c1: "u * w * w * w + u * w * w + u * w + u \<le> 1 / 2 ^ 50"
    using uw uww uwww by (simp add: u_def)
  have c2: "u * w * w + u * w + u \<le> 1 / 2 ^ 50" "u * w * w + u \<le> 1 / 2 ^ 50"
    using uw uww by (simp_all add: u_def)
  have c3: "w * w * w + w * w \<le> 8" "w * w \<le> 8" "2 * w * w + 2 * w + 1 \<le> 8" "2 * w + 1 \<le> 8"
    using w ww www by simp_all
  note m = mult_left_mono
  have "\<bar>P12 - P21\<bar> \<le> 2 * (X1 * (1 / 2 ^ 50)) + 2 * (X2 * (1 / 2 ^ 50)) + 2 * (X3 * (1 / 2 ^ 50))
      + hB * 8 + hA * 8 + hK * 8 + 2 * (h * 8)"
    using tri D7 C7 m[OF c1 nn(1)] m[OF c2(1) nn(2)] m[OF c2(1) nn(3)] m[OF c2(2) nn(3)]
      m[OF c3(1) nn(5)] m[OF c3(1) nn(4)] m[OF c3(2) nn(6)] m[OF c3(3) h] m[OF c3(4) h]
    by linarith
  also have "\<dots> \<le> (X1 + X2 + X3) / 2 ^ 49 + 16 * (h + hA + hK + hB)"
    using nn h by (simp add: add_divide_distrib)
  also have "\<dots> = (\<bar>a\<bar> * \<bar>p\<bar> * \<bar>k1\<bar> + \<bar>a\<bar> * \<bar>q\<bar> + \<bar>k0\<bar> * \<bar>r\<bar> * \<bar>k1\<bar>) / 2 ^ 49
           + 16 * h * (1 + \<bar>a\<bar> + \<bar>k0\<bar> + \<bar>k1\<bar>)"
    unfolding X1_def X2_def X3_def hA_def hB_def hK_def by (simp only: distrib_left mult_1_right mult.assoc)
  finally show ?thesis .
qed

text \<open>The tolerance at the symmetric covariance \<open>[1, 0, 0, 3]\<close> with \<open>R = 2\<close> and \<open>Q = 0\<close>:
  there \<open>Pp11 = 4\<close>, \<open>Pp12 = 3\<close>, \<open>K0\<close> is the double nearest to \<open>2/3\<close>, \<open>K1 = 1/2\<close> and \<open>1 - K0\<close>
  is the double \<open>6004799503160662 * 2\<^sup>-\<^sup>5\<^sup>4\<close>.\<close>

lemma kalman_symmetric_input_tolerance:
  "joseph_tolerance [round_double 1, round_double 0, round_double 0, round_double 3]
     (round_double 2) (round_double 0)
   = (5 * (6004799503160662 / 2 ^ 54) + 6004799503160661 / 2 ^ 53) / 2 ^ 49
     + (3 / 2 + 6004799503160662 / 2 ^ 54 + 6004799503160661 / 2 ^ 53) / 2 ^ 1071"
  by (simp add: joseph_tolerance_def kalman_gain_def predicted_covariance_def Let_def double_ops
      round_magnitude_binade[where e = "- 54"] round_magnitude_binade[where e = "- 53"]
      round_magnitude_binade[where e = "- 52"] round_magnitude_binade[where e = "- 51"]
      round_magnitude_binade[where e = "- 50"])

text \<open>
  \<^bold>\<open>Claim C1\<close>, as the code has it, in binary64.  For every input whose covariance is
  symmetric (\<open>state_covariance[1] == state_covariance[2]\<close>) and for which \<open>kalman_filter\<close>
  returns off-diagonal entries \<open>updated_covariance[1]\<close> and \<open>updated_covariance[2]\<close> that are
  finite, the innovation covariance \<open>S\<close> is not zero and the two entries are equal up to
  rounding: they differ by at most \<open>joseph_tolerance\<close>, that is \<open>2\<^sup>-\<^sup>4\<^sup>9\<close> times
  \<open>|(1 - K0) * Pp11 * K1| + |(1 - K0) * Pp12| + |K0 * R * K1|\<close> plus \<open>2\<^sup>-\<^sup>1\<^sup>0\<^sup>7\<^sup>1\<close> times
  \<open>1 + |1 - K0| + |K0| + |K1|\<close>, for the values of \<open>1 - K0\<close>, \<open>K0\<close>, \<open>K1\<close>, \<open>Pp11\<close> and \<open>Pp12\<close> that
  the kernel computes.  At the input of the counterexample above the difference is \<open>2\<^sup>-\<^sup>5\<^sup>3\<close>
  and the tolerance is below \<open>2\<^sup>-\<^sup>4\<^sup>7\<close>.
\<close>

theorem kalman_joseph_symmetric_tolerance:
  fixes x P :: "double list"
  assumes run: "kalman_filter x z P R Q = Some (us, uc)"
    and sym: "double_eq (P ! 1) (P ! 2)"
    and fin: "is_finite (uc ! 1)" "is_finite (uc ! 2)"
  shows "\<not> is_zero (innovation_covariance P R Q)
    \<and> \<bar>valof (uc ! 1) - valof (uc ! 2)\<bar> \<le> joseph_tolerance P R Q"
proof -
  define Pp where "Pp = predicted_covariance P Q"
  define K0 where "K0 = fst (kalman_gain P R Q)"
  define K1 where "K1 = snd (kalman_gain P R Q)"
  define a where "a = 1 - K0"
  define b where "b = - K1"
  define p where "p = Pp ! 0"
  define q where "q = Pp ! 1"
  define q' where "q' = Pp ! 2"
  note od = kalman_filter_off_diagonal[OF run, folded Pp_def K0_def K1_def,
      folded a_def b_def p_def q_def q'_def]
  have qq: "valof q' = valof q"
    using double_eq_plus[OF sym, of "P ! 3"]
    by (simp add: q_def q'_def Pp_def predicted_covariance_def Let_def)
  from fin(1) have "is_number (a * p * b + a * q + K0 * R * K1)"
    unfolding od(1) by (rule is_finite_number)
  from is_number_plus[OF this]
  have n4: "is_number (a * p * b + a * q)" and n6: "is_number (K0 * R * K1)"
    and H7: "\<bar>valof (a * p * b + a * q + K0 * R * K1) - (valof (a * p * b + a * q) + valof (K0 * R * K1))\<bar>
       \<le> \<bar>valof (a * p * b + a * q) + valof (K0 * R * K1)\<bar> * (1 / 2 ^ 53) + 1 / 2 ^ 1075"
    by blast+
  from is_number_plus[OF n4]
  have n2: "is_number (a * p * b)" and n3: "is_number (a * q)"
    and H4: "\<bar>valof (a * p * b + a * q) - (valof (a * p * b) + valof (a * q))\<bar>
       \<le> \<bar>valof (a * p * b) + valof (a * q)\<bar> * (1 / 2 ^ 53) + 1 / 2 ^ 1075"
    by blast+
  from is_number_times[OF n2]
  have n1: "is_number (a * p)" and nb: "is_number b"
    and H2: "\<bar>valof (a * p * b) - valof (a * p) * valof b\<bar>
       \<le> \<bar>valof (a * p) * valof b\<bar> * (1 / 2 ^ 53) + 1 / 2 ^ 1075"
    by blast+
  from is_number_times[OF n1]
  have H1: "\<bar>valof (a * p) - valof a * valof p\<bar>
       \<le> \<bar>valof a * valof p\<bar> * (1 / 2 ^ 53) + 1 / 2 ^ 1075"
    by blast
  from is_number_times[OF n3]
  have H3: "\<bar>valof (a * q) - valof a * valof q\<bar>
       \<le> \<bar>valof a * valof q\<bar> * (1 / 2 ^ 53) + 1 / 2 ^ 1075"
    by blast
  from is_number_times[OF n6]
  have n5: "is_number (K0 * R)"
    and H6: "\<bar>valof (K0 * R * K1) - valof (K0 * R) * valof K1\<bar>
       \<le> \<bar>valof (K0 * R) * valof K1\<bar> * (1 / 2 ^ 53) + 1 / 2 ^ 1075"
    by blast+
  from is_number_times[OF n5]
  have nK0: "is_number K0"
    and H5: "\<bar>valof (K0 * R) - valof K0 * valof R\<bar>
       \<le> \<bar>valof K0 * valof R\<bar> * (1 / 2 ^ 53) + 1 / 2 ^ 1075"
    by blast+
  from fin(2) have "is_number ((b * p + q') * a + K1 * R * K0)"
    unfolding od(2) by (rule is_finite_number)
  from is_number_plus[OF this]
  have m3: "is_number ((b * p + q') * a)" and m6: "is_number (K1 * R * K0)"
    and G7: "\<bar>valof ((b * p + q') * a + K1 * R * K0) - (valof ((b * p + q') * a) + valof (K1 * R * K0))\<bar>
       \<le> \<bar>valof ((b * p + q') * a) + valof (K1 * R * K0)\<bar> * (1 / 2 ^ 53) + 1 / 2 ^ 1075"
    by blast+
  from is_number_times[OF m3]
  have m2: "is_number (b * p + q')"
    and G3: "\<bar>valof ((b * p + q') * a) - valof (b * p + q') * valof a\<bar>
       \<le> \<bar>valof (b * p + q') * valof a\<bar> * (1 / 2 ^ 53) + 1 / 2 ^ 1075"
    by blast+
  from is_number_plus[OF m2]
  have m1: "is_number (b * p)"
    and G2: "\<bar>valof (b * p + q') - (valof (b * p) + valof q)\<bar>
       \<le> \<bar>valof (b * p) + valof q\<bar> * (1 / 2 ^ 53) + 1 / 2 ^ 1075"
    unfolding qq by blast+
  from is_number_times[OF m1]
  have G1: "\<bar>valof (b * p) - valof b * valof p\<bar>
       \<le> \<bar>valof b * valof p\<bar> * (1 / 2 ^ 53) + 1 / 2 ^ 1075"
    by blast
  from is_number_times[OF m6]
  have m5: "is_number (K1 * R)"
    and G6: "\<bar>valof (K1 * R * K0) - valof (K1 * R) * valof K0\<bar>
       \<le> \<bar>valof (K1 * R) * valof K0\<bar> * (1 / 2 ^ 53) + 1 / 2 ^ 1075"
    by blast+
  from is_number_times[OF m5]
  have G5: "\<bar>valof (K1 * R) - valof K1 * valof R\<bar>
       \<le> \<bar>valof K1 * valof R\<bar> * (1 / 2 ^ 53) + 1 / 2 ^ 1075"
    by blast
  have bk: "valof b = - valof K1" using is_number_uminus[of K1] nb by (simp add: b_def)
  have h: "(0::real) \<le> 1 / 2 ^ 1075"
    by (simp only: zero_le_divide_1_iff zero_le_power zero_le_numeral)
  note main = joseph_error_real[OF H1 H2 H3 H4 H5 H6 H7 G1 G2 G3 G5 G6 G7 bk h]
  have sixteen: "16 * (1 / 2 ^ 1075) = 1 / (2::real) ^ 1071"
  proof -
    have "(2::real) ^ 1075 = 2 ^ 4 * 2 ^ 1071" by (simp only: power_add[symmetric]) simp
    then show ?thesis by (simp only:) simp
  qed
  have tol: "joseph_tolerance P R Q =
      (\<bar>valof a\<bar> * \<bar>valof p\<bar> * \<bar>valof K1\<bar> + \<bar>valof a\<bar> * \<bar>valof q\<bar> + \<bar>valof K0\<bar> * \<bar>valof R\<bar> * \<bar>valof K1\<bar>) / 2 ^ 49
       + 16 * (1 / 2 ^ 1075) * (1 + \<bar>valof a\<bar> + \<bar>valof K0\<bar> + \<bar>valof K1\<bar>)"
    unfolding sixteen joseph_tolerance_def Let_def a_def p_def q_def K0_def K1_def Pp_def
    by (simp only: times_divide_eq_left mult_1)
  have S: "\<not> is_zero (innovation_covariance P R Q)"
    using nK0 unfolding K0_def kalman_gain_divisor by (rule is_number_divide)
  from main S show ?thesis unfolding od tol by (simp only: simp_thms)
qed

theorem kalman_joseph_symmetric_tolerance_witness:
  "kalman_filter [round_double 0, round_double 0] (round_double 1)
     [round_double 1, round_double 0, round_double 0, round_double 3]
     (round_double 2) (round_double 0)
   = Some ([Finite False 6004799503160661 (- 53), Finite False 4503599627370496 (- 53)],
           [Finite False 6004799503160662 (- 52), Finite False 9007199254740991 (- 53),
            Finite False 4503599627370496 (- 52), Finite False 6755399441055744 (- 52)])
   \<and> double_eq ([round_double 1, round_double 0, round_double 0, round_double 3] ! 1)
        ([round_double 1, round_double 0, round_double 0, round_double 3] ! 2)
   \<and> is_finite (Finite False 9007199254740991 (- 53))
   \<and> is_finite (Finite False 4503599627370496 (- 52))
   \<and> \<not> is_zero (innovation_covariance
          [round_double 1, round_double 0, round_double 0, round_double 3]
          (round_double 2) (round_double 0))
   \<and> \<bar>valof (Finite False 9007199254740991 (- 53)) - valof (Finite False 4503599627370496 (- 52))\<bar>
       \<le> joseph_tolerance [round_double 1, round_double 0, round_double 0, round_double 3]
            (round_double 2) (round_double 0)
   \<and> \<bar>valof (Finite False 9007199254740991 (- 53)) - valof (Finite False 4503599627370496 (- 52))\<bar>
       = 1 / 2 ^ 53
   \<and> joseph_tolerance [round_double 1, round_double 0, round_double 0, round_double 3]
        (round_double 2) (round_double 0) \<le> 1 / 2 ^ 47"
proof -
  have sym: "double_eq ([round_double 1, round_double 0, round_double 0, round_double 3] ! 1)
        ([round_double 1, round_double 0, round_double 0, round_double 3] ! 2)"
    by (simp add: round_double_def)
  have f1: "is_finite ([Finite False 6004799503160662 (- 52), Finite False 9007199254740991 (- 53),
            Finite False 4503599627370496 (- 52), Finite False 6755399441055744 (- 52)] ! 1)"
    and f2: "is_finite ([Finite False 6004799503160662 (- 52), Finite False 9007199254740991 (- 53),
            Finite False 4503599627370496 (- 52), Finite False 6755399441055744 (- 52)] ! 2)"
    by simp_all
  have d: "\<bar>valof (Finite False 9007199254740991 (- 53)) - valof (Finite False 4503599627370496 (- 52))\<bar>
       = 1 / 2 ^ 53"
    by (simp add: pow2_def)
  have t: "joseph_tolerance [round_double 1, round_double 0, round_double 0, round_double 3]
        (round_double 2) (round_double 0) \<le> 1 / 2 ^ 47"
    unfolding kalman_symmetric_input_tolerance by simp
  from kalman_joseph_symmetric_tolerance[OF kalman_symmetric_input_run sym f1 f2] f1 f2 sym d t
  show ?thesis
    by (simp only: kalman_symmetric_input_run simp_thms nth_Cons_0 nth_Cons_Suc One_nat_def
        numeral_2_eq_2)
qed

section \<open>The low-pass filter in binary64\<close>

text \<open>
  On finite doubles, multiplying by \<open>1\<close> changes nothing, \<open>1 - 1\<close> is \<open>+0\<close>, \<open>1 - 0\<close> is \<open>1\<close>, a
  zero times a finite value is a zero, and adding a zero gives back the other operand
  (a zero of either sign when that operand is a zero).
\<close>

lemma one_is_finite: "is_finite (1::double)"
  by (simp add: one_double_def)

lemma zero_is_finite: "is_finite (0::double)"
  by (simp add: zero_double_def)

lemma one_times_finite: "is_finite x \<Longrightarrow> 1 * x = x"
proof (cases x)
  case (Finite s m e)
  assume fin: "is_finite x"
  show ?thesis
  proof (cases "m = 0")
    case True
    with fin Finite show ?thesis by (simp add: times_double_def one_double_def)
  next
    case False
    have one: "real (2 ^ 52) * pow2 (- 52) = 1" by (simp add: pow2_def)
    have "1 * x = round_magnitude s (real (2 ^ 52) * pow2 (- 52) * (real m * pow2 e))"
      using False Finite by (simp add: times_double_def one_double_def)
    also have "\<dots> = round_magnitude s (real m * pow2 e)" by (simp only: one mult_1)
    also have "\<dots> = Finite s m e" using fin Finite False by (intro round_magnitude_exact) simp_all
    finally show ?thesis using Finite by simp
  qed
qed simp_all

lemma one_minus_one: "(1::double) - 1 = 0"
  by (simp add: minus_double_def one_double_def zero_double_def)

lemma one_minus_zero: "(1::double) - 0 = 1"
proof -
  have "round_magnitude False (real (2 ^ 52) * pow2 (- 52)) = Finite False (2 ^ 52) (- 52)"
    by (rule round_magnitude_exact) simp_all
  then show ?thesis
    by (simp add: minus_double_def one_double_def zero_double_def round_double_def pow2_def)
qed

lemma zero_times_finite: "is_finite y \<Longrightarrow> \<exists>t. (0::double) * y = Finite t 0 (- 1074)"
  by (cases y) (simp_all add: times_double_def zero_double_def)

lemma valof_sign: "m \<noteq> 0 \<Longrightarrow> (valof (Finite s m e) < 0) = s"
  using pow2_pos[of e] by (auto simp: mult_less_0_iff zero_less_mult_iff)

lemma valof_abs: "\<bar>valof (Finite s m e)\<bar> = real m * pow2 e"
  using pow2_pos[of e] by (simp add: abs_mult)

lemma valof_zero_iff: "(valof (Finite s m e) = 0) = (m = 0)"
  using pow2_pos[of e] by simp

lemma round_double_valof:
  assumes "is_finite (Finite s m e)" and "m \<noteq> 0"
  shows "round_double (valof (Finite s m e)) = Finite s m e"
proof -
  have "valof (Finite s m e) \<noteq> 0" using assms(2) by (simp only: valof_zero_iff) simp
  then show ?thesis
    unfolding round_double_def
    by (simp only: if_False valof_sign[OF assms(2)] valof_abs round_magnitude_exact[OF assms])
qed

lemma finite_plus_zero:
  assumes "is_finite x"
  shows "is_finite (x + Finite t 0 (- 1074)) \<and> double_eq (x + Finite t 0 (- 1074)) x
         \<and> (x + Finite t 0 (- 1074) = x \<or> is_zero x)"
proof (cases x)
  case (Finite s m e)
  show ?thesis
  proof (cases "m = 0")
    case True
    with Finite show ?thesis by (simp add: plus_double_def)
  next
    case False
    have nz: "valof (Finite s m e) \<noteq> 0" using False by (simp only: valof_zero_iff) simp
    have fin: "is_finite (Finite s m e)" using assms Finite by simp
    have "x + Finite t 0 (- 1074) = round_double (valof (Finite s m e))"
      using nz Finite by (simp add: plus_double_def Let_def del: valof.simps) (simp)
    also have "\<dots> = Finite s m e" by (rule round_double_valof[OF fin False])
    finally show ?thesis using fin Finite by simp
  qed
next
  case (Infinity s) with assms show ?thesis by simp
next
  case NaN with assms show ?thesis by simp
qed

lemma zero_plus_finite:
  assumes "is_finite x"
  shows "is_finite (Finite t 0 (- 1074) + x) \<and> double_eq (Finite t 0 (- 1074) + x) x
         \<and> (Finite t 0 (- 1074) + x = x \<or> is_zero x)"
proof (cases x)
  case (Finite s m e)
  show ?thesis
  proof (cases "m = 0")
    case True
    with Finite show ?thesis by (simp add: plus_double_def)
  next
    case False
    have nz: "valof (Finite s m e) \<noteq> 0" using False by (simp only: valof_zero_iff) simp
    have fin: "is_finite (Finite s m e)" using assms Finite by simp
    have "Finite t 0 (- 1074) + x = round_double (valof (Finite s m e))"
      using nz Finite by (simp add: plus_double_def Let_def del: valof.simps) (simp)
    also have "\<dots> = Finite s m e" by (rule round_double_valof[OF fin False])
    finally show ?thesis using fin Finite by simp
  qed
next
  case (Infinity s) with assms show ?thesis by simp
next
  case NaN with assms show ?thesis by simp
qed

lemma double_eq_trans: "double_eq x y \<Longrightarrow> double_eq y z \<Longrightarrow> double_eq x z"
  by (cases x; cases y; cases z) simp_all

lemma double_eq_refl: "is_finite x \<Longrightarrow> double_eq x x"
  by (cases x) simp_all

lemma double_eq_is_zero:
  assumes "double_eq x y" and "is_zero x"
  shows "is_zero y"
proof (cases x)
  case x: (Finite s m e)
  with assms(2) have m: "m = 0" by simp
  show ?thesis
  proof (cases y)
    case y: (Finite t n f)
    from assms(1) x y have "valof (Finite t n f) = valof (Finite s m e)" by simp
    also have "\<dots> = 0" using m by simp
    finally have "n = 0" by (simp only: valof_zero_iff)
    with y show ?thesis by simp
  qed (use assms(1) x in simp_all)
qed (use assms(2) in simp_all)

lemma plus_NaN: "x + NaN = NaN" and NaN_plus: "NaN + x = NaN"
  by (cases x; simp add: plus_double_def)+

lemma zero_times_Infinity: "0 * Infinity s = NaN"
  by (simp add: times_double_def zero_double_def)

lemma low_pass_alpha_one_finite:
  assumes n: "0 < n" "nat n \<le> length xs" "nat n \<le> length ys"
    and fin: "\<forall>k<nat n. is_finite (xs ! k)"
  shows "\<exists>out. low_pass_filter xs (1::double) n ys = Some out
           \<and> (\<forall>k<nat n. is_finite (out ! k) \<and> double_eq (out ! k) (xs ! k)
                  \<and> (out ! k = xs ! k \<or> is_zero (xs ! k)))"
proof -
  from low_pass_filter_run[of n xs 1 ys] n
  obtain out where run: "low_pass_filter xs 1 n ys = Some out"
    and z: "out ! 0 = xs ! 0"
    and rec: "\<forall>k. 1 \<le> k \<and> k < nat n \<longrightarrow> out ! k = 1 * xs ! k + (1 - 1) * out ! (k - 1)"
    by auto
  have "k < nat n \<Longrightarrow> is_finite (out ! k) \<and> double_eq (out ! k) (xs ! k)
          \<and> (out ! k = xs ! k \<or> is_zero (xs ! k))" for k
  proof (induction k)
    case 0
    with fin z show ?case by (simp add: double_eq_refl)
  next
    case (Suc k)
    then have prev: "is_finite (out ! k)" by simp
    from Suc.prems fin have cur: "is_finite (xs ! Suc k)" by simp
    from zero_times_finite[OF prev] obtain t where t: "0 * out ! k = Finite t 0 (- 1074)" ..
    from rec Suc.prems have "out ! Suc k = 1 * xs ! Suc k + (1 - 1) * out ! k" by simp
    then have "out ! Suc k = xs ! Suc k + Finite t 0 (- 1074)"
      by (simp only: one_times_finite[OF cur] one_minus_one t)
    with finite_plus_zero[OF cur, of t] show ?case by simp
  qed
  with run show ?thesis by blast
qed

lemma low_pass_alpha_zero_finite:
  assumes n: "0 < n" "nat n \<le> length xs" "nat n \<le> length ys"
    and fin: "\<forall>k<nat n. is_finite (xs ! k)"
  shows "\<exists>out. low_pass_filter xs (0::double) n ys = Some out
           \<and> (\<forall>k<nat n. is_finite (out ! k) \<and> double_eq (out ! k) (xs ! 0)
                  \<and> (out ! k = xs ! 0 \<or> is_zero (xs ! 0)))"
proof -
  from low_pass_filter_run[of n xs 0 ys] n
  obtain out where run: "low_pass_filter xs 0 n ys = Some out"
    and z: "out ! 0 = xs ! 0"
    and rec: "\<forall>k. 1 \<le> k \<and> k < nat n \<longrightarrow> out ! k = 0 * xs ! k + (1 - 0) * out ! (k - 1)"
    by auto
  have "k < nat n \<Longrightarrow> is_finite (out ! k) \<and> double_eq (out ! k) (xs ! 0)
          \<and> (out ! k = xs ! 0 \<or> is_zero (xs ! 0))" for k
  proof (induction k)
    case 0
    with fin z show ?case by (simp add: double_eq_refl)
  next
    case (Suc k)
    then have prev: "is_finite (out ! k)" and prev_eq: "double_eq (out ! k) (xs ! 0)"
      and prev_id: "out ! k = xs ! 0 \<or> is_zero (xs ! 0)"
      by simp_all
    from Suc.prems fin have cur: "is_finite (xs ! Suc k)" by simp
    from zero_times_finite[OF cur] obtain t where t: "0 * xs ! Suc k = Finite t 0 (- 1074)" ..
    from rec Suc.prems have "out ! Suc k = 0 * xs ! Suc k + (1 - 0) * out ! k" by simp
    then have step: "out ! Suc k = Finite t 0 (- 1074) + out ! k"
      by (simp only: one_minus_zero one_times_finite[OF prev] t)
    from zero_plus_finite[OF prev, of t] step
    have a: "is_finite (out ! Suc k)" and b: "double_eq (out ! Suc k) (out ! k)"
      and c: "out ! Suc k = out ! k \<or> is_zero (out ! k)" by simp_all
    from b prev_eq have "double_eq (out ! Suc k) (xs ! 0)" by (rule double_eq_trans)
    moreover from c prev_id prev_eq have "out ! Suc k = xs ! 0 \<or> is_zero (xs ! 0)"
      by (auto dest: double_eq_is_zero)
    ultimately show ?case using a by simp
  qed
  with run show ?thesis by blast
qed

text \<open>
  Against claim C4 as stated: with \<open>alpha = 1\<close> and the input \<open>[\<infinity>, 1]\<close>, the second output is
  \<open>1 * 1 + (1 - 1) * \<infinity> = 1 + 0 * \<infinity>\<close>, which is NaN and not the input sample \<open>1\<close>.
\<close>

theorem low_pass_identity_counterexample:
  "low_pass_filter [Infinity False, 1] (1::double) 2 [0, 0] = Some [Infinity False, NaN]
   \<and> \<not> double_eq NaN 1 \<and> NaN \<noteq> (1::double)"
  by (simp add: low_pass_filter_def low_pass_loop.simps one_times_finite one_is_finite
      one_minus_one zero_times_Infinity plus_NaN) (simp add: one_double_def)

text \<open>
  \<^bold>\<open>Claim C4\<close>, as the code has it.  For every low-pass input with \<open>n \<ge> 1\<close> (any arithmetic, any
  \<open>alpha\<close>), \<open>output[0]\<close> is the value \<open>input[0]\<close> itself.  In binary64, when \<open>alpha = 1\<close> and the
  \<open>n\<close> input samples are finite, \<open>output[k] == input[k]\<close> for every \<open>k < n\<close>: \<open>output[k]\<close> is the
  same double as \<open>input[k]\<close>, except that a zero sample may come out as a zero of the other
  sign.
\<close>

theorem low_pass_identity:
  "(0 < n \<and> nat n \<le> length input_signal \<and> nat n \<le> length output_signal \<longrightarrow>
      (\<exists>out. low_pass_filter input_signal alpha n output_signal = Some out
             \<and> out ! 0 = input_signal ! 0))
   \<and> (0 < m \<and> nat m \<le> length xs \<and> nat m \<le> length ys \<and> (\<forall>k<nat m. is_finite (xs ! k)) \<longrightarrow>
      (\<exists>out. low_pass_filter xs (1::double) m ys = Some out
             \<and> (\<forall>k<nat m. double_eq (out ! k) (xs ! k)
                    \<and> (out ! k = xs ! k \<or> is_zero (xs ! k)))))"
proof (intro conjI impI)
  assume "0 < n \<and> nat n \<le> length input_signal \<and> nat n \<le> length output_signal"
  with low_pass_filter_run[of n input_signal alpha output_signal]
  show "\<exists>out. low_pass_filter input_signal alpha n output_signal = Some out
             \<and> out ! 0 = input_signal ! 0"
    by auto
next
  assume "0 < m \<and> nat m \<le> length xs \<and> nat m \<le> length ys \<and> (\<forall>k<nat m. is_finite (xs ! k))"
  with low_pass_alpha_one_finite[of m xs ys]
  show "\<exists>out. low_pass_filter xs (1::double) m ys = Some out
             \<and> (\<forall>k<nat m. double_eq (out ! k) (xs ! k)
                    \<and> (out ! k = xs ! k \<or> is_zero (xs ! k)))"
    by auto
qed

theorem low_pass_identity_witness:
  "(0::int) < 3 \<and> nat 3 \<le> length [1, 0, 1 :: double] \<and> nat 3 \<le> length [0, 0, 0 :: double]
   \<and> is_finite (1::double) \<and> is_finite (0::double)
   \<and> (\<exists>out. low_pass_filter [1, 0, 1] (1::double) 3 [0, 0, 0] = Some out
         \<and> out ! 0 = 1 \<and> double_eq (out ! 1) 0 \<and> out ! 2 = 1)"
proof -
  have fin: "\<forall>k<nat 3. is_finite ([1, 0, 1 :: double] ! k)"
    by (simp add: nth_Cons' one_is_finite zero_is_finite)
  have nz: "\<not> is_zero (1::double)" by (simp add: one_double_def)
  from low_pass_identity[of 3 "[1, 0, 1 :: double]" "[0, 0, 0]" 1 3 "[1, 0, 1]" "[0, 0, 0]"] fin
  obtain out where run: "low_pass_filter [1, 0, 1] (1::double) 3 [0, 0, 0] = Some out"
    and each: "\<forall>k<nat 3. double_eq (out ! k) ([1, 0, 1] ! k)
                 \<and> (out ! k = [1, 0, 1] ! k \<or> is_zero ([1, 0, 1 :: double] ! k))"
    by auto
  from each[THEN spec, of 0] nz have "out ! 0 = 1" by simp
  moreover from each[THEN spec, of 1] have "double_eq (out ! 1) 0" by simp
  moreover from each[THEN spec, of 2] nz have "out ! 2 = 1" by simp
  ultimately show ?thesis using run one_is_finite zero_is_finite by simp
qed

text \<open>
  Against claim C10 as stated: with \<open>alpha = 0\<close> and the input \<open>[1, \<infinity>]\<close>, the second output
  is \<open>0 * \<infinity> + (1 - 0) * 1\<close>, which is NaN and not \<open>input[0] = 1\<close>.
\<close>

theorem low_pass_alpha_zero_counterexample:
  "low_pass_filter [1, Infinity False] (0::double) 2 [0, 0] = Some [1, NaN]
   \<and> \<not> double_eq NaN 1 \<and> NaN \<noteq> (1::double)"
  by (simp add: low_pass_filter_def low_pass_loop.simps one_times_finite one_is_finite
      one_minus_zero zero_times_Infinity NaN_plus) (simp add: one_double_def)

text \<open>
  \<^bold>\<open>Claim C10\<close>, as the code has it.  In binary64, when \<open>alpha = 0\<close> and the \<open>n \<ge> 1\<close> input
  samples are finite, \<open>output[k] == input[0]\<close> for every \<open>k < n\<close>: \<open>output[k]\<close> is the same
  double as \<open>input[0]\<close>, except that for a zero \<open>input[0]\<close> it may be a zero of the other sign.
\<close>

theorem low_pass_alpha_zero_constant:
  "0 < n \<Longrightarrow> nat n \<le> length xs \<Longrightarrow> nat n \<le> length ys \<Longrightarrow> \<forall>k<nat n. is_finite (xs ! k) \<Longrightarrow>
   \<exists>out. low_pass_filter xs (0::double) n ys = Some out
     \<and> (\<forall>k<nat n. double_eq (out ! k) (xs ! 0) \<and> (out ! k = xs ! 0 \<or> is_zero (xs ! 0)))"
  using low_pass_alpha_zero_finite[of n xs ys] by auto

theorem low_pass_alpha_zero_constant_witness:
  "(0::int) < 3 \<and> nat 3 \<le> length [1, 0, 1 :: double] \<and> nat 3 \<le> length [0, 0, 0 :: double]
   \<and> is_finite (1::double) \<and> is_finite (0::double)
   \<and> (\<exists>out. low_pass_filter [1, 0, 1] (0::double) 3 [0, 0, 0] = Some out
         \<and> out ! 0 = 1 \<and> out ! 1 = 1 \<and> out ! 2 = 1)"
proof -
  have fin: "\<forall>k<nat 3. is_finite ([1, 0, 1 :: double] ! k)"
    by (simp add: nth_Cons' one_is_finite zero_is_finite)
  have nz: "\<not> is_zero (1::double)" by (simp add: one_double_def)
  have pre: "(0::int) < 3" "nat 3 \<le> length [1, 0, 1 :: double]" "nat 3 \<le> length [0, 0, 0 :: double]"
    by simp_all
  from low_pass_alpha_zero_constant[OF pre fin]
  obtain out where run: "low_pass_filter [1, 0, 1] (0::double) 3 [0, 0, 0] = Some out"
    and each: "\<forall>k<nat 3. double_eq (out ! k) ([1, 0, 1] ! 0)
                 \<and> (out ! k = [1, 0, 1] ! 0 \<or> is_zero ([1, 0, 1 :: double] ! 0))"
    by auto
  from each[THEN spec, of 0] nz have "out ! 0 = 1" by simp
  moreover from each[THEN spec, of 1] nz have "out ! 1 = 1" by simp
  moreover from each[THEN spec, of 2] nz have "out ! 2 = 1" by simp
  ultimately show ?thesis using run one_is_finite zero_is_finite by simp
qed

section \<open>Properties of the test harness\<close>

subsection \<open>Tolerance resolution\<close>

lemma and_then_Inr:
  "and_then r f = Inr y \<Longrightarrow> \<exists>v. r = Inr v \<and> f v = Inr y"
  by (cases r) (simp_all add: and_then_def)

lemma absolute_or_resolved:
  assumes "absolute_or j key dflt = Inr x"
  shows "x = (case optional_absolute j key of Some y \<Rightarrow> y | None \<Rightarrow> dflt)"
proof (cases j)
  case (JObject members)
  show ?thesis
  proof (cases "map_of members key")
    case None
    with JObject assms show ?thesis by (simp add: absolute_or_def optional_absolute_def)
  next
    case (Some tol)
    show ?thesis
    proof (cases tol)
      case (JObject tm)
      show ?thesis
      proof (cases "map_of tm ''absolute''")
        case None
        with \<open>j = JObject members\<close> Some JObject assms show ?thesis
          by (simp add: absolute_or_def optional_absolute_def and_then_def)
      next
        case (Some v)
        with \<open>j = JObject members\<close> \<open>map_of members key = Some tol\<close> JObject assms show ?thesis
          by (cases v) (simp_all add: absolute_or_def optional_absolute_def and_then_def)
      qed
    qed (use \<open>j = JObject members\<close> Some assms in
          \<open>simp_all add: absolute_or_def optional_absolute_def and_then_def\<close>)
  qed
qed (use assms in \<open>simp_all add: absolute_or_def optional_absolute_def\<close>)

lemma parse_test_case_tolerance:
  assumes "parse_test_case parse_fields global_abs_tol tc = Inr t"
  shows "abs_tolerance t =
    (case optional_absolute tc ''tolerance'' of Some y \<Rightarrow> y | None \<Rightarrow> global_abs_tol)"
proof -
  from assms obtain nm ds fs tol where
    tol: "absolute_or tc ''tolerance'' global_abs_tol = Inr tol"
    and t: "t = \<lparr>name = nm, description = ds, algorithm_fields = fs, abs_tolerance = tol\<rparr>"
    unfolding parse_test_case_def by (fastforce dest!: and_then_Inr)
  from absolute_or_resolved[OF tol] t show ?thesis by simp
qed

lemma parse_test_cases_tolerance:
  "parse_test_cases parse_fields g tcs acc = Inr cases \<Longrightarrow>
   map abs_tolerance cases =
     map abs_tolerance acc
     @ map (\<lambda>tc. case optional_absolute tc ''tolerance'' of Some y \<Rightarrow> y | None \<Rightarrow> g) tcs"
proof (induction tcs arbitrary: acc)
  case Nil
  then show ?case by simp
next
  case (Cons tc tcs)
  from Cons.prems obtain t where t: "parse_test_case parse_fields g tc = Inr t"
    and rest: "parse_test_cases parse_fields g tcs (acc @ [t]) = Inr cases"
    by (auto dest!: and_then_Inr)
  from Cons.IH[OF rest] parse_test_case_tolerance[OF t] show ?case by simp
qed


lemma load_entries_tolerance:
  "load_entries parse_fields dir acc = Inr cases \<Longrightarrow>
   map abs_tolerance cases =
     map abs_tolerance acc
     @ map (\<lambda>(data, tc). resolved_tolerance (optional_absolute tc ''tolerance'')
                             (optional_absolute data ''global_tolerance''))
         (discovered_cases dir)"
proof (induction dir arbitrary: acc)
  case Nil
  then show ?case by (simp add: discovered_cases_def)
next
  case (Cons entry dir)
  let ?skip = "path_extension entry \<noteq> ''.json'' \<or> path_filename entry = ''schema.json''
                 \<or> \<not> is_open entry"
  show ?case
  proof (cases ?skip)
    case True
    then have "load_entries parse_fields (entry # dir) acc = load_entries parse_fields dir acc"
      by auto
    moreover from True have "discovered_cases (entry # dir) = discovered_cases dir"
      by (auto simp: discovered_cases_def)
    ultimately show ?thesis using Cons by simp
  next
    case False
    with Cons.prems obtain data where data: "json_parse entry = Some data"
      by (cases "json_parse entry") auto
    from False data Cons.prems obtain g test_cases mid where
      g: "absolute_or data ''global_tolerance'' (round_double (1 / 10 ^ 10)) = Inr g"
      and tcs: "at_mutable data ''test_cases'' = Inr test_cases"
      and mid: "parse_test_cases parse_fields g (items test_cases) acc = Inr mid"
      and rest: "load_entries parse_fields dir mid = Inr cases"
      by (auto dest!: and_then_Inr)
    have disc: "discovered_cases (entry # dir)
        = map (\<lambda>tc. (data, tc)) (items test_cases) @ discovered_cases dir"
      using False data tcs by (simp add: discovered_cases_def)
    have gval: "g = (case optional_absolute data ''global_tolerance'' of
                       Some y \<Rightarrow> y | None \<Rightarrow> round_double (1 / 10 ^ 10))"
      by (rule absolute_or_resolved[OF g])
    have res: "(case optional_absolute tc ''tolerance'' of Some y \<Rightarrow> y | None \<Rightarrow> g)
        = resolved_tolerance (optional_absolute tc ''tolerance'')
            (optional_absolute data ''global_tolerance'')" for tc
      by (simp add: resolved_tolerance_def gval split: option.splits)
    from Cons.IH[OF rest] parse_test_cases_tolerance[OF mid] show ?thesis
      by (simp add: disc res comp_def)
  qed
qed

text \<open>
  \<^bold>\<open>Claim C7.\<close>  Whenever a directory loads, the tolerance of each loaded case, in discovery
  order, is the resolved tolerance of the case it was parsed from: the case's
  \<open>tolerance.absolute\<close> when present, otherwise the \<open>global_tolerance.absolute\<close> of the case's
  own document when present, otherwise \<open>1e-10\<close>.  This holds for the loader of every
  algorithm (\<open>parse_fields\<close> is arbitrary).
\<close>

theorem tolerance_resolution:
  "LoadTestVectors parse_fields dir = Inr cases \<Longrightarrow>
   map abs_tolerance cases =
     map (\<lambda>(data, tc). resolved_tolerance (optional_absolute tc ''tolerance'')
                            (optional_absolute data ''global_tolerance''))
       (discovered_cases dir)"
  using load_entries_tolerance[of parse_fields dir "[]" cases] by (simp add: LoadTestVectors_def)

lemma example_dir_load:
  "LoadTestVectors parse_kalman_fields example_dir =
     Inr [example_test_case ''a'' (round_double (1 / 10 ^ 6)),
          example_test_case ''b'' (round_double (1 / 10 ^ 3)),
          example_test_case ''c'' (round_double (1 / 10 ^ 10))]"
  by (simp add: LoadTestVectors_def example_dir_def example_case_def example_test_case_def
      parse_test_case_def parse_kalman_fields_def absolute_or_def and_then_def)

theorem tolerance_resolution_witness:
  "LoadTestVectors parse_kalman_fields example_dir =
     Inr [example_test_case ''a'' (round_double (1 / 10 ^ 6)),
          example_test_case ''b'' (round_double (1 / 10 ^ 3)),
          example_test_case ''c'' (round_double (1 / 10 ^ 10))]
   \<and> map (\<lambda>(data, tc). resolved_tolerance (optional_absolute tc ''tolerance'')
                            (optional_absolute data ''global_tolerance''))
         (discovered_cases example_dir)
       = [round_double (1 / 10 ^ 6), round_double (1 / 10 ^ 3), round_double (1 / 10 ^ 10)]"
  using tolerance_resolution[OF example_dir_load] example_dir_load
  by (simp add: example_test_case_def)

subsection \<open>The equivalence export repeats the conformance pass\<close>

lemma export_cases_spec:
  "\<forall>tc\<in>set cases. \<exists>r. MatchesExpectedOutput_actual tc = Inr r \<Longrightarrow>
   \<exists>records. export_cases cases outputs = Inr (outputs @ records)
     \<and> length records = length cases
     \<and> (\<forall>i<length cases.
           test_name (records ! i) = name (cases ! i)
           \<and> tolerance (records ! i) = abs_tolerance (cases ! i)
           \<and> MatchesExpectedOutput_actual (cases ! i)
               = Inr (actual_updated_state (records ! i), actual_updated_covariance (records ! i)))"
proof (induction cases arbitrary: outputs)
  case Nil
  then show ?case by simp
next
  case (Cons tc cases)
  from Cons.prems obtain us uc where tc: "MatchesExpectedOutput_actual tc = Inr (us, uc)"
    by auto
  then have len: "\<not> (length (state (algorithm_fields tc)) < 2
         \<or> length (state_covariance (algorithm_fields tc)) < 4)"
    by (auto simp: MatchesExpectedOutput_actual_def split: if_splits)
  from tc len have kf: "kalman_filter
       [state (algorithm_fields tc) ! 0, state (algorithm_fields tc) ! 1]
       (measurement (algorithm_fields tc))
       [state_covariance (algorithm_fields tc) ! 0, state_covariance (algorithm_fields tc) ! 1,
        state_covariance (algorithm_fields tc) ! 2, state_covariance (algorithm_fields tc) ! 3]
       (measurement_noise (algorithm_fields tc)) (process_noise (algorithm_fields tc))
     = Some (us, uc)"
    by (auto simp: MatchesExpectedOutput_actual_def Let_def split: option.splits)
  from kalman_filter_defined[of "[state (algorithm_fields tc) ! 0, state (algorithm_fields tc) ! 1]"
      "[state_covariance (algorithm_fields tc) ! 0, state_covariance (algorithm_fields tc) ! 1,
        state_covariance (algorithm_fields tc) ! 2, state_covariance (algorithm_fields tc) ! 3]"
      "measurement (algorithm_fields tc)" "measurement_noise (algorithm_fields tc)"
      "process_noise (algorithm_fields tc)"] kf
  have lens: "length us = 2" "length uc = 4" by auto
  have us: "[us ! 0, us ! 1] = us"
    using lens(1) by (intro nth_equalityI) (auto simp: less_Suc_eq nth_Cons')
  have uc: "[uc ! 0, uc ! 1, uc ! 2, uc ! 3] = uc"
    using lens(2) by (intro nth_equalityI) (auto simp: less_Suc_eq nth_Cons' numeral_eq_Suc)
  let ?r = "\<lparr>test_name = name tc, actual_updated_state = us,
             actual_updated_covariance = uc, tolerance = abs_tolerance tc\<rparr>"
  have step: "export_cases (tc # cases) outputs = export_cases cases (outputs @ [?r])"
    using len kf us uc by (simp add: Let_def)
  from Cons.prems have "\<forall>tc\<in>set cases. \<exists>r. MatchesExpectedOutput_actual tc = Inr r" by simp
  from Cons.IH[OF this, of "outputs @ [?r]"] obtain records where
    run: "export_cases cases (outputs @ [?r]) = Inr ((outputs @ [?r]) @ records)"
    and n: "length records = length cases"
    and each: "\<forall>i<length cases.
           test_name (records ! i) = name (cases ! i)
           \<and> tolerance (records ! i) = abs_tolerance (cases ! i)
           \<and> MatchesExpectedOutput_actual (cases ! i)
               = Inr (actual_updated_state (records ! i), actual_updated_covariance (records ! i))"
    by blast
  have "\<forall>i<length (tc # cases).
           test_name ((?r # records) ! i) = name ((tc # cases) ! i)
           \<and> tolerance ((?r # records) ! i) = abs_tolerance ((tc # cases) ! i)
           \<and> MatchesExpectedOutput_actual ((tc # cases) ! i)
               = Inr (actual_updated_state ((?r # records) ! i),
                      actual_updated_covariance ((?r # records) ! i))"
    using each tc by (auto simp: nth_Cons')
  with step run n show ?case
    by (intro exI[of _ "?r # records"]) simp
qed

text \<open>
  \<^bold>\<open>Claim C8.\<close>  If the directory loads and the conformance test computes outputs for every
  loaded case, then the export pass over the same directory writes one record per case, in
  the order of the cases, with the case's name, the case's resolved tolerance, and exactly
  the outputs the conformance test computed for that case.
\<close>

theorem equivalence_export_matches_conformance:
  "LoadTestVectors parse_kalman_fields dir = Inr cases \<Longrightarrow>
   \<forall>tc\<in>set cases. \<exists>r. MatchesExpectedOutput_actual tc = Inr r \<Longrightarrow>
   \<exists>records. TearDown dir = Inr records
     \<and> length records = length cases
     \<and> (\<forall>i<length cases.
           test_name (records ! i) = name (cases ! i)
           \<and> tolerance (records ! i) = abs_tolerance (cases ! i)
           \<and> MatchesExpectedOutput_actual (cases ! i)
               = Inr (actual_updated_state (records ! i), actual_updated_covariance (records ! i)))"
  using export_cases_spec[of cases "[]"] by (simp add: TearDown_def and_then_def)

lemmas double_ops_zero = plus_double_def minus_double_def times_double_def divide_double_def
  uminus_double_def one_double_def zero_double_def round_double_def pow2_def round_half_even_def
  round_magnitude_binade[where e = "- 52"]

lemma kalman_zero_run:
  "kalman_filter [0, 0] (0::double) [0, 0, 0, 0] 1 0 = Some ([0, 0], [0, 0, 0, 0])"
  by (simp add: kalman_filter_def Let_def double_ops_zero)

lemma example_test_case_sel:
  "name (example_test_case nm tol) = nm" "abs_tolerance (example_test_case nm tol) = tol"
  by (simp_all add: example_test_case_def)

lemma example_case_actual:
  "MatchesExpectedOutput_actual (example_test_case nm tol) = Inr ([0, 0], [0, 0, 0, 0])"
  by (simp add: MatchesExpectedOutput_actual_def example_test_case_def kalman_zero_run)

theorem equivalence_export_matches_conformance_witness:
  "LoadTestVectors parse_kalman_fields example_dir =
     Inr [example_test_case ''a'' (round_double (1 / 10 ^ 6)),
          example_test_case ''b'' (round_double (1 / 10 ^ 3)),
          example_test_case ''c'' (round_double (1 / 10 ^ 10))]
   \<and> MatchesExpectedOutput_actual (example_test_case ''a'' (round_double (1 / 10 ^ 6)))
       = Inr ([0, 0], [0, 0, 0, 0])
   \<and> MatchesExpectedOutput_actual (example_test_case ''b'' (round_double (1 / 10 ^ 3)))
       = Inr ([0, 0], [0, 0, 0, 0])
   \<and> MatchesExpectedOutput_actual (example_test_case ''c'' (round_double (1 / 10 ^ 10)))
       = Inr ([0, 0], [0, 0, 0, 0])
   \<and> TearDown example_dir =
       Inr [\<lparr>test_name = ''a'', actual_updated_state = [0, 0],
              actual_updated_covariance = [0, 0, 0, 0], tolerance = round_double (1 / 10 ^ 6)\<rparr>,
            \<lparr>test_name = ''b'', actual_updated_state = [0, 0],
              actual_updated_covariance = [0, 0, 0, 0], tolerance = round_double (1 / 10 ^ 3)\<rparr>,
            \<lparr>test_name = ''c'', actual_updated_state = [0, 0],
              actual_updated_covariance = [0, 0, 0, 0], tolerance = round_double (1 / 10 ^ 10)\<rparr>]"
proof -
  let ?cases = "[example_test_case ''a'' (round_double (1 / 10 ^ 6)),
          example_test_case ''b'' (round_double (1 / 10 ^ 3)),
          example_test_case ''c'' (round_double (1 / 10 ^ 10))]"
  have ok: "\<forall>tc\<in>set ?cases. \<exists>r. MatchesExpectedOutput_actual tc = Inr r"
    by (simp add: example_case_actual)
  from equivalence_export_matches_conformance[OF example_dir_load ok]
  obtain records where run: "TearDown example_dir = Inr records"
    and len: "length records = 3"
    and each: "\<forall>i<3. test_name (records ! i) = name (?cases ! i)
           \<and> tolerance (records ! i) = abs_tolerance (?cases ! i)
           \<and> MatchesExpectedOutput_actual (?cases ! i)
               = Inr (actual_updated_state (records ! i), actual_updated_covariance (records ! i))"
    by auto
  let ?expected = "[\<lparr>test_name = ''a'', actual_updated_state = [0, 0],
              actual_updated_covariance = [0, 0, 0, 0], tolerance = round_double (1 / 10 ^ 6)\<rparr>,
            \<lparr>test_name = ''b'', actual_updated_state = [0, 0],
              actual_updated_covariance = [0, 0, 0, 0], tolerance = round_double (1 / 10 ^ 3)\<rparr>,
            \<lparr>test_name = ''c'', actual_updated_state = [0, 0],
              actual_updated_covariance = [0, 0, 0, 0], tolerance = round_double (1 / 10 ^ 10)\<rparr>]"
  have "records = ?expected"
  proof (rule nth_equalityI)
    show "length records = length ?expected" using len by simp
  next
    fix i assume "i < length records"
    with len have i: "i = 0 \<or> i = 1 \<or> i = 2" by auto
    have r0: "test_name (records ! 0) = ''a'' \<and> tolerance (records ! 0) = round_double (1 / 10 ^ 6)
       \<and> actual_updated_state (records ! 0) = [0, 0]
       \<and> actual_updated_covariance (records ! 0) = [0, 0, 0, 0]"
      using each[THEN spec, of 0] by (auto simp: example_case_actual example_test_case_sel)
    have r1: "test_name (records ! 1) = ''b'' \<and> tolerance (records ! 1) = round_double (1 / 10 ^ 3)
       \<and> actual_updated_state (records ! 1) = [0, 0]
       \<and> actual_updated_covariance (records ! 1) = [0, 0, 0, 0]"
      using each[THEN spec, of 1] by (auto simp: example_case_actual example_test_case_sel)
    have r2: "test_name (records ! 2) = ''c'' \<and> tolerance (records ! 2) = round_double (1 / 10 ^ 10)
       \<and> actual_updated_state (records ! 2) = [0, 0]
       \<and> actual_updated_covariance (records ! 2) = [0, 0, 0, 0]"
      using each[THEN spec, of 2] by (auto simp: example_case_actual example_test_case_sel)
    from r0 r1 r2 i show "records ! i = ?expected ! i" by auto
  qed
  with run example_dir_load example_case_actual show ?thesis by simp
qed

end
